theory Spec2Isabelle
  imports Main "HOL-Library.Word"
begin

section \<open>Data model\<close>

text \<open>
  The request object (NonAdminBackup), the execution object (Velero Backup) and the
  pieces of their status that the controller in
  \<^verbatim>\<open>internal/controller/nonadminbackup_controller.go\<close> reads and writes. Go string
  types (phases, condition types, condition statuses) stay strings; a Go pointer that may
  be nil is an \<open>option\<close>; \<open>map[string]string\<close> is a partial function.
\<close>

type_synonym NonAdminBackupPhase = string

definition EmptyString :: string where
  "EmptyString = ''''"

definition NonAdminBackupPhaseNew :: NonAdminBackupPhase where
  "NonAdminBackupPhaseNew = ''New''"

definition NonAdminBackupPhaseBackingOff :: NonAdminBackupPhase where
  "NonAdminBackupPhaseBackingOff = ''BackingOff''"

definition NonAdminBackupPhaseCreated :: NonAdminBackupPhase where
  "NonAdminBackupPhaseCreated = ''Created''"

definition NonAdminConditionAccepted :: string where
  "NonAdminConditionAccepted = ''Accepted''"

definition NonAdminConditionQueued :: string where
  "NonAdminConditionQueued = ''Queued''"

definition ConditionTrue :: string where
  "ConditionTrue = ''True''"

definition ConditionFalse :: string where
  "ConditionFalse = ''False''"

text \<open>metav1.Condition; the zero time is \<open>0\<close>.\<close>

record Condition =
  cType :: string
  cStatus :: string
  cObservedGeneration :: int
  cLastTransitionTime :: nat
  cReason :: string
  cMessage :: string

text \<open>metav1.ObjectMeta, the fields the controller and the event filter touch.\<close>

record ObjectMeta =
  Name :: string
  Namespace :: string
  Labels :: "string \<rightharpoonup> string"
  Annotations :: "string \<rightharpoonup> string"
  Generation :: "64 word"

text \<open>
  The Velero job specification. The controller overwrites \<open>IncludedNamespaces\<close> and
  copies every other field as it is; three of those other fields stand for the rest.
\<close>

record BackupSpec =
  IncludedNamespaces :: "string list"
  ExcludedNamespaces :: "string list"
  IncludedResources :: "string list"
  StorageLocation :: string

text \<open>The status Velero writes on its Backup; the controller only copies and compares it.\<close>

record BackupStatus =
  bsPhase :: string
  bsWarnings :: int
  bsErrors :: int

definition BackupStatus_zero :: BackupStatus where
  "BackupStatus_zero = \<lparr>bsPhase = '''', bsWarnings = 0, bsErrors = 0\<rparr>"

text \<open>velerov1.Backup, the execution object.\<close>

record Backup =
  bObjectMeta :: ObjectMeta
  bSpec :: BackupSpec
  bStatus :: BackupStatus

text \<open>The reference block of the request's status (nacv1alpha1.VeleroBackup).\<close>

record VeleroBackup =
  vbName :: string
  vbNamespace :: string
  vbStatus :: "BackupStatus option"

record NonAdminBackupStatus =
  Phase :: NonAdminBackupPhase
  Conditions :: "Condition list"
  VeleroBackup :: "VeleroBackup option"

text \<open>
  The spec of a request embeds the job specification; it is taken as present (the
  controller copies it with \<open>DeepCopy\<close> and writes into the copy).
\<close>

record NonAdminBackupSpec =
  BackupSpec :: BackupSpec

record NonAdminBackup =
  ObjectMeta :: ObjectMeta
  Spec :: NonAdminBackupSpec
  Status :: NonAdminBackupStatus

section \<open>Errors\<close>

datatype error =
    NotFound
  | AlreadyExists
  | ApiError string
  | ErrorString string
  | TerminalError error

text \<open>The \<open>Error()\<close> method: the message of an error value.\<close>

fun Error :: "error \<Rightarrow> string" where
  "Error NotFound = ''not found''"
| "Error AlreadyExists = ''already exists''"
| "Error (ApiError m) = m"
| "Error (ErrorString m) = m"
| "Error (TerminalError e) = ''terminal error: '' @ Error e"

definition IsNotFound :: "error \<Rightarrow> bool" where
  "IsNotFound e = (e = NotFound)"

section \<open>Collaborators\<close>

text \<open>
  Package \<^verbatim>\<open>internal/common/function\<close> is outside the sources at hand; the
  controller is parametrised by its four helpers.
\<close>

record function_pkg =
  ValidateBackupSpec :: "NonAdminBackup \<Rightarrow> error option"
  GenerateVeleroBackupName :: "string \<Rightarrow> string \<Rightarrow> string"
  GetNonAdminLabels :: "string \<rightharpoonup> string"
  GetNonAdminBackupAnnotations :: "ObjectMeta \<Rightarrow> (string \<rightharpoonup> string)"

record NonAdminBackupReconciler =
  OADPNamespace :: string

text \<open>
  The object store. Objects are keyed by (namespace, name). \<open>calls\<close> records every
  write the controller attempts, in order, with the object it sent.
\<close>

datatype api_write =
    CreateCall Backup
  | StatusUpdateCall NonAdminBackup

type_synonym object_key = "string \<times> string"

record cluster =
  nabs :: "object_key \<rightharpoonup> NonAdminBackup"
  backups :: "object_key \<rightharpoonup> Backup"
  calls :: "api_write list"

text \<open>
  What the store does wrong during one reconcile pass (each kind of call happens at most
  once per pass), and the clock.
\<close>

record faults =
  getNabErr :: "error option"
  getBackupErr :: "error option"
  createErr :: "error option"
  updateErr :: "error option"
  now :: nat

definition no_faults :: "nat \<Rightarrow> faults" where
  "no_faults t = \<lparr>getNabErr = None, getBackupErr = None, createErr = None,
     updateErr = None, now = t\<rparr>"

definition nab_key :: "NonAdminBackup \<Rightarrow> object_key" where
  "nab_key nab = (Namespace (ObjectMeta nab), Name (ObjectMeta nab))"

definition backup_key :: "Backup \<Rightarrow> object_key" where
  "backup_key b = (Namespace (bObjectMeta b), Name (bObjectMeta b))"

text \<open>
  Modelled from the spec: the object store collaborator (the controller-runtime client,
  not part of the sources): synchronous get, create and update-status operations keyed by
  (namespace, name); update-status replaces the status of the stored object and nothing
  else.
\<close>

definition Get_NonAdminBackup :: "faults \<Rightarrow> cluster \<Rightarrow> object_key \<Rightarrow> error + NonAdminBackup" where
  "Get_NonAdminBackup f c k =
     (case getNabErr f of
        Some e \<Rightarrow> Inl e
      | None \<Rightarrow> (case nabs c k of None \<Rightarrow> Inl NotFound | Some nab \<Rightarrow> Inr nab))"

definition Get_Backup :: "faults \<Rightarrow> cluster \<Rightarrow> object_key \<Rightarrow> error + Backup" where
  "Get_Backup f c k =
     (case getBackupErr f of
        Some e \<Rightarrow> Inl e
      | None \<Rightarrow> (case backups c k of None \<Rightarrow> Inl NotFound | Some b \<Rightarrow> Inr b))"

definition Create_Backup :: "faults \<Rightarrow> cluster \<Rightarrow> Backup \<Rightarrow> cluster \<times> error option" where
  "Create_Backup f c b =
     (let c' = c\<lparr>calls := calls c @ [CreateCall b]\<rparr> in
      case createErr f of
        Some e \<Rightarrow> (c', Some e)
      | None \<Rightarrow>
          (case backups c (backup_key b) of
             Some _ \<Rightarrow> (c', Some AlreadyExists)
           | None \<Rightarrow> (c'\<lparr>backups := (backups c)(backup_key b \<mapsto> b)\<rparr>, None)))"

definition Status_Update :: "faults \<Rightarrow> cluster \<Rightarrow> NonAdminBackup \<Rightarrow> cluster \<times> error option" where
  "Status_Update f c nab =
     (let c' = c\<lparr>calls := calls c @ [StatusUpdateCall nab]\<rparr> in
      case updateErr f of
        Some e \<Rightarrow> (c', Some e)
      | None \<Rightarrow>
          (case nabs c (nab_key nab) of
             None \<Rightarrow> (c', Some NotFound)
           | Some stored \<Rightarrow>
               (c'\<lparr>nabs := (nabs c)(nab_key nab \<mapsto> stored\<lparr>Status := Status nab\<rparr>)\<rparr>, None)))"

text \<open>
  Modelled from the spec: \<^verbatim>\<open>meta.FindStatusCondition\<close> and
  \<^verbatim>\<open>meta.SetStatusCondition\<close> of k8s.io/apimachinery (a library, not part of the
  sources). Conditions are keyed by type; setting a condition appends it when its type is
  absent, and otherwise overwrites status, reason, message and observed generation where
  they differ, stamping the transition time when the status changes. The result says
  whether anything changed.
\<close>

fun FindStatusCondition :: "Condition list \<Rightarrow> string \<Rightarrow> nat option" where
  "FindStatusCondition [] t = None"
| "FindStatusCondition (c # cs) t =
     (if cType c = t then Some 0
      else (case FindStatusCondition cs t of None \<Rightarrow> None | Some i \<Rightarrow> Some (Suc i)))"

definition merge_condition :: "nat \<Rightarrow> Condition \<Rightarrow> Condition \<Rightarrow> Condition \<times> bool" where
  "merge_condition t existing new =
     (let (c1, ch1) =
            (if cStatus existing \<noteq> cStatus new
             then (existing\<lparr>cStatus := cStatus new,
                     cLastTransitionTime :=
                       (if cLastTransitionTime new \<noteq> 0 then cLastTransitionTime new else t)\<rparr>,
                   True)
             else (existing, False));
          (c2, ch2) =
            (if cReason c1 \<noteq> cReason new then (c1\<lparr>cReason := cReason new\<rparr>, True)
             else (c1, ch1));
          (c3, ch3) =
            (if cMessage c2 \<noteq> cMessage new then (c2\<lparr>cMessage := cMessage new\<rparr>, True)
             else (c2, ch2));
          (c4, ch4) =
            (if cObservedGeneration c3 \<noteq> cObservedGeneration new
             then (c3\<lparr>cObservedGeneration := cObservedGeneration new\<rparr>, True)
             else (c3, ch3))
      in (c4, ch4))"

definition SetStatusCondition :: "nat \<Rightarrow> Condition list \<Rightarrow> Condition \<Rightarrow> Condition list \<times> bool" where
  "SetStatusCondition t conditions newCondition =
     (case FindStatusCondition conditions (cType newCondition) of
        None \<Rightarrow>
          (conditions @
             [if cLastTransitionTime newCondition = 0
              then newCondition\<lparr>cLastTransitionTime := t\<rparr> else newCondition],
           True)
      | Some i \<Rightarrow>
          (let (c', changed) = merge_condition t (conditions ! i) newCondition
           in (conditions[i := c'], changed)))"

section \<open>The controller\<close>

text \<open>
  A reconcile step takes the store and the in-memory request object and returns both,
  with the pair (requeue, error) of the Go function.
\<close>

record step_result =
  sCluster :: cluster
  sNab :: NonAdminBackup
  sRequeue :: bool
  sErr :: "error option"

text \<open>updateNonAdminPhase: the new phase and whether this call changed it.\<close>

definition updateNonAdminPhase :: "NonAdminBackupPhase \<Rightarrow> NonAdminBackupPhase \<Rightarrow> NonAdminBackupPhase \<times> bool" where
  "updateNonAdminPhase phase newPhase =
     (if newPhase = EmptyString then (phase, False)
      else if phase = newPhase then (phase, False)
      else (newPhase, True))"

text \<open>updateNonAdminBackupVeleroBackupReference\<close>

definition updateNonAdminBackupVeleroBackupReference :: "NonAdminBackupStatus \<Rightarrow> Backup \<Rightarrow> NonAdminBackupStatus \<times> bool" where
  "updateNonAdminBackupVeleroBackupReference status veleroBackup =
     (case VeleroBackup status of
        None \<Rightarrow>
          (status\<lparr>VeleroBackup :=
             Some \<lparr>vbName = Name (bObjectMeta veleroBackup),
                   vbNamespace = Namespace (bObjectMeta veleroBackup),
                   vbStatus = None\<rparr>\<rparr>, True)
      | Some vb \<Rightarrow>
          (if vbName vb \<noteq> Name (bObjectMeta veleroBackup)
              \<or> vbNamespace vb \<noteq> Namespace (bObjectMeta veleroBackup)
           then (status\<lparr>VeleroBackup :=
                   Some (vb\<lparr>vbName := Name (bObjectMeta veleroBackup),
                            vbNamespace := Namespace (bObjectMeta veleroBackup)\<rparr>)\<rparr>, True)
           else (status, False)))"

text \<open>
  updateNonAdminBackupVeleroBackupStatus. \<open>reflect.DeepEqual\<close> of the stored pointer
  and the address of the live status: a nil pointer differs from every non-nil one, two
  non-nil pointers are equal when the values they point to are.
\<close>

definition updateNonAdminBackupVeleroBackupStatus :: "NonAdminBackupStatus \<Rightarrow> Backup \<Rightarrow> NonAdminBackupStatus \<times> bool" where
  "updateNonAdminBackupVeleroBackupStatus status veleroBackup =
     (case VeleroBackup status of
        None \<Rightarrow>
          (status\<lparr>VeleroBackup :=
             Some \<lparr>vbName = '''', vbNamespace = '''',
                   vbStatus = Some (bStatus veleroBackup)\<rparr>\<rparr>, True)
      | Some vb \<Rightarrow>
          (if vbStatus vb \<noteq> Some (bStatus veleroBackup)
           then (status\<lparr>VeleroBackup := Some (vb\<lparr>vbStatus := Some (bStatus veleroBackup)\<rparr>)\<rparr>, True)
           else (status, False)))"

text \<open>init (lines 113-129)\<close>

definition init :: "NonAdminBackupReconciler \<Rightarrow> function_pkg \<Rightarrow> faults \<Rightarrow> cluster \<Rightarrow> NonAdminBackup \<Rightarrow> step_result" where
  "init r fn f c nab =
     (if Phase (Status nab) = EmptyString then
        (let (phase', updated) = updateNonAdminPhase (Phase (Status nab)) NonAdminBackupPhaseNew;
             nab' = nab\<lparr>Status := (Status nab)\<lparr>Phase := phase'\<rparr>\<rparr>
         in if updated then
              (case Status_Update f c nab' of
                 (c', Some err) \<Rightarrow> \<lparr>sCluster = c', sNab = nab', sRequeue = False, sErr = Some err\<rparr>
               | (c', None) \<Rightarrow> \<lparr>sCluster = c', sNab = nab', sRequeue = True, sErr = None\<rparr>)
            else \<lparr>sCluster = c, sNab = nab', sRequeue = False, sErr = None\<rparr>)
      else \<lparr>sCluster = c, sNab = nab, sRequeue = False, sErr = None\<rparr>)"

text \<open>validateSpec (lines 143-186)\<close>

definition acceptedFalse :: "error \<Rightarrow> Condition" where
  "acceptedFalse err =
     \<lparr>cType = NonAdminConditionAccepted, cStatus = ConditionFalse, cObservedGeneration = 0,
      cLastTransitionTime = 0, cReason = ''InvalidBackupSpec'', cMessage = Error err\<rparr>"

definition acceptedTrue :: Condition where
  "acceptedTrue =
     \<lparr>cType = NonAdminConditionAccepted, cStatus = ConditionTrue, cObservedGeneration = 0,
      cLastTransitionTime = 0, cReason = ''BackupAccepted'', cMessage = ''backup accepted''\<rparr>"

definition validateSpec :: "NonAdminBackupReconciler \<Rightarrow> function_pkg \<Rightarrow> faults \<Rightarrow> cluster \<Rightarrow> NonAdminBackup \<Rightarrow> step_result" where
  "validateSpec r fn f c nab =
     (case ValidateBackupSpec fn nab of
        Some err \<Rightarrow>
          (let (phase', updatedPhase) =
                 updateNonAdminPhase (Phase (Status nab)) NonAdminBackupPhaseBackingOff;
               (conds', updatedCondition) =
                 SetStatusCondition (now f) (Conditions (Status nab)) (acceptedFalse err);
               nab' = nab\<lparr>Status := (Status nab)\<lparr>Phase := phase', Conditions := conds'\<rparr>\<rparr>
           in if updatedPhase \<or> updatedCondition then
                (case Status_Update f c nab' of
                   (c', Some updErr) \<Rightarrow>
                     \<lparr>sCluster = c', sNab = nab', sRequeue = False, sErr = Some updErr\<rparr>
                 | (c', None) \<Rightarrow>
                     \<lparr>sCluster = c', sNab = nab', sRequeue = False,
                      sErr = Some (TerminalError err)\<rparr>)
              else \<lparr>sCluster = c, sNab = nab', sRequeue = False,
                    sErr = Some (TerminalError err)\<rparr>)
      | None \<Rightarrow>
          (let (conds', updated) =
                 SetStatusCondition (now f) (Conditions (Status nab)) acceptedTrue;
               nab' = nab\<lparr>Status := (Status nab)\<lparr>Conditions := conds'\<rparr>\<rparr>
           in if updated then
                (case Status_Update f c nab' of
                   (c', Some err) \<Rightarrow> \<lparr>sCluster = c', sNab = nab', sRequeue = False, sErr = Some err\<rparr>
                 | (c', None) \<Rightarrow> \<lparr>sCluster = c', sNab = nab', sRequeue = True, sErr = None\<rparr>)
              else \<lparr>sCluster = c, sNab = nab', sRequeue = False, sErr = None\<rparr>))"

text \<open>
  syncVeleroBackupWithNonAdminBackup (lines 198-271), in two parts: fetching or creating
  the execution object (lines 204-234), then the bookkeeping and the status mirror
  (lines 236-270).
\<close>

definition newVeleroBackup :: "NonAdminBackupReconciler \<Rightarrow> function_pkg \<Rightarrow> string \<Rightarrow> NonAdminBackup \<Rightarrow> Backup" where
  "newVeleroBackup r fn veleroBackupName nab =
     (let backupSpec = (BackupSpec (Spec nab))\<lparr>IncludedNamespaces := [Namespace (ObjectMeta nab)]\<rparr>
      in \<lparr>bObjectMeta =
            \<lparr>Name = veleroBackupName,
             Namespace = OADPNamespace r,
             Labels = GetNonAdminLabels fn,
             Annotations = GetNonAdminBackupAnnotations fn (ObjectMeta nab),
             Generation = 0\<rparr>,
          bSpec = backupSpec,
          bStatus = BackupStatus_zero\<rparr>)"

definition getOrCreateVeleroBackup :: "NonAdminBackupReconciler \<Rightarrow> function_pkg \<Rightarrow> faults \<Rightarrow> cluster \<Rightarrow> string \<Rightarrow> NonAdminBackup \<Rightarrow> cluster \<times> (error + Backup)" where
  "getOrCreateVeleroBackup r fn f c veleroBackupName nab =
     (case Get_Backup f c (OADPNamespace r, veleroBackupName) of
        Inr veleroBackup \<Rightarrow> (c, Inr veleroBackup)
      | Inl err \<Rightarrow>
          (if \<not> IsNotFound err then (c, Inl err)
           else
             (let veleroBackup = newVeleroBackup r fn veleroBackupName nab
              in case Create_Backup f c veleroBackup of
                   (c', Some err') \<Rightarrow> (c', Inl err')
                 | (c', None) \<Rightarrow> (c', Inr veleroBackup))))"

definition queuedTrue :: Condition where
  "queuedTrue =
     \<lparr>cType = NonAdminConditionQueued, cStatus = ConditionTrue, cObservedGeneration = 0,
      cLastTransitionTime = 0, cReason = ''BackupScheduled'',
      cMessage = ''Created Velero Backup object''\<rparr>"

definition syncStatus :: "faults \<Rightarrow> cluster \<Rightarrow> NonAdminBackup \<Rightarrow> Backup \<Rightarrow> step_result" where
  "syncStatus f c nab veleroBackup =
     (let (phase', updatedPhase) =
            updateNonAdminPhase (Phase (Status nab)) NonAdminBackupPhaseCreated;
          (conds', updatedCondition) =
            SetStatusCondition (now f) (Conditions (Status nab)) queuedTrue;
          (status', updatedReference) =
            updateNonAdminBackupVeleroBackupReference
              ((Status nab)\<lparr>Phase := phase', Conditions := conds'\<rparr>) veleroBackup;
          nab' = nab\<lparr>Status := status'\<rparr>
      in if updatedPhase \<or> updatedCondition \<or> updatedReference then
           (case Status_Update f c nab' of
              (c', Some err) \<Rightarrow> \<lparr>sCluster = c', sNab = nab', sRequeue = False, sErr = Some err\<rparr>
            | (c', None) \<Rightarrow> \<lparr>sCluster = c', sNab = nab', sRequeue = False, sErr = None\<rparr>)
         else
           (let (status'', updated) = updateNonAdminBackupVeleroBackupStatus status' veleroBackup;
                nab'' = nab\<lparr>Status := status''\<rparr>
            in if updated then
                 (case Status_Update f c nab'' of
                    (c', Some err) \<Rightarrow>
                      \<lparr>sCluster = c', sNab = nab'', sRequeue = False, sErr = Some err\<rparr>
                  | (c', None) \<Rightarrow>
                      \<lparr>sCluster = c', sNab = nab'', sRequeue = False, sErr = None\<rparr>)
               else \<lparr>sCluster = c, sNab = nab'', sRequeue = False, sErr = None\<rparr>))"

definition syncVeleroBackupWithNonAdminBackup :: "NonAdminBackupReconciler \<Rightarrow> function_pkg \<Rightarrow> faults \<Rightarrow> cluster \<Rightarrow> NonAdminBackup \<Rightarrow> step_result" where
  "syncVeleroBackupWithNonAdminBackup r fn f c nab =
     (let veleroBackupName =
            GenerateVeleroBackupName fn (Namespace (ObjectMeta nab)) (Name (ObjectMeta nab))
      in if veleroBackupName = EmptyString then
           \<lparr>sCluster = c, sNab = nab, sRequeue = False,
            sErr = Some (ErrorString ''unable to generate Velero Backup name'')\<rparr>
         else
           (case getOrCreateVeleroBackup r fn f c veleroBackupName nab of
              (c', Inl err) \<Rightarrow> \<lparr>sCluster = c', sNab = nab, sRequeue = False, sErr = Some err\<rparr>
            | (c', Inr veleroBackup) \<Rightarrow> syncStatus f c' nab veleroBackup))"

text \<open>Reconcile (lines 68-99): the three steps in order, stopping at the first error or requeue.\<close>

record Result =
  Requeue :: bool

type_synonym reconcileStepFunction = "faults \<Rightarrow> cluster \<Rightarrow> NonAdminBackup \<Rightarrow> step_result"

fun runSteps :: "reconcileStepFunction list \<Rightarrow> faults \<Rightarrow> cluster \<Rightarrow> NonAdminBackup \<Rightarrow> cluster \<times> Result \<times> error option" where
  "runSteps [] f c nab = (c, \<lparr>Requeue = False\<rparr>, None)"
| "runSteps (step # steps) f c nab =
     (let res = step f c nab in
      case sErr res of
        Some err \<Rightarrow> (sCluster res, \<lparr>Requeue = False\<rparr>, Some err)
      | None \<Rightarrow>
          (if sRequeue res then (sCluster res, \<lparr>Requeue = True\<rparr>, None)
           else runSteps steps f (sCluster res) (sNab res)))"

definition reconcileSteps :: "NonAdminBackupReconciler \<Rightarrow> function_pkg \<Rightarrow> reconcileStepFunction list" where
  "reconcileSteps r fn = [init r fn, validateSpec r fn, syncVeleroBackupWithNonAdminBackup r fn]"

definition Reconcile :: "NonAdminBackupReconciler \<Rightarrow> function_pkg \<Rightarrow> faults \<Rightarrow> cluster \<Rightarrow> object_key \<Rightarrow> cluster \<times> Result \<times> error option" where
  "Reconcile r fn f c req =
     (case Get_NonAdminBackup f c req of
        Inl err \<Rightarrow>
          (if IsNotFound err then (c, \<lparr>Requeue = False\<rparr>, None)
           else (c, \<lparr>Requeue = False\<rparr>, Some err))
      | Inr nab \<Rightarrow> runSteps (reconcileSteps r fn) f c nab)"

section \<open>The event filter for request objects\<close>

text \<open>
  \<^verbatim>\<open>internal/predicate/nonadminbackup_predicate.go\<close>. The events carry the
  request object; \<open>GetGeneration\<close> reads its metadata.
\<close>

record CreateEvent =
  ceObject :: NonAdminBackup

record UpdateEvent =
  ObjectOld :: NonAdminBackup
  ObjectNew :: NonAdminBackup

record DeleteEvent =
  deObject :: NonAdminBackup
  DeleteStateUnknown :: bool

definition GetGeneration :: "NonAdminBackup \<Rightarrow> 64 word" where
  "GetGeneration obj = Generation (ObjectMeta obj)"

definition Create :: "CreateEvent \<Rightarrow> bool" where
  "Create evt = True"

definition Update :: "UpdateEvent \<Rightarrow> bool" where
  "Update evt = (if GetGeneration (ObjectNew evt) \<noteq> GetGeneration (ObjectOld evt) then True else False)"

definition Delete :: "DeleteEvent \<Rightarrow> bool" where
  "Delete evt = True"

section \<open>Pointer-level view of the status mirror\<close>









section \<open>Notions used in the properties\<close>

text \<open>Every request with a non-empty phase in \<open>c\<close> still has one in \<open>c'\<close>.\<close>

definition phases_kept :: "cluster \<Rightarrow> cluster \<Rightarrow> bool" where
  "phases_kept c c' =
     (\<forall>k n. nabs c k = Some n \<and> Phase (Status n) \<noteq> EmptyString \<longrightarrow>
        (\<exists>n'. nabs c' k = Some n' \<and> Phase (Status n') \<noteq> EmptyString))"

text \<open>The condition of type \<open>t\<close>, if the list has one.\<close>

definition condition_of :: "Condition list \<Rightarrow> string \<Rightarrow> Condition option" where
  "condition_of conds t = map_option (\<lambda>i. conds ! i) (FindStatusCondition conds t)"

text \<open>A condition agrees with another on everything \<open>SetStatusCondition\<close> compares.\<close>

definition same_condition :: "Condition \<Rightarrow> Condition \<Rightarrow> bool" where
  "same_condition c d =
     (cType c = cType d \<and> cStatus c = cStatus d \<and> cReason c = cReason d
      \<and> cMessage c = cMessage d \<and> cObservedGeneration c = cObservedGeneration d)"

definition has_condition :: "Condition list \<Rightarrow> Condition \<Rightarrow> bool" where
  "has_condition conds d =
     (case condition_of conds (cType d) of None \<Rightarrow> False | Some c \<Rightarrow> same_condition c d)"

text \<open>
  The bookkeeping of the Synchronize step is complete with respect to the execution object
  \<open>vb\<close>: phase Created, Queued recorded as True, and the reference block names \<open>vb\<close>.
\<close>

definition bookkeeping_complete :: "NonAdminBackupStatus \<Rightarrow> Backup \<Rightarrow> bool" where
  "bookkeeping_complete status vb =
     (Phase status = NonAdminBackupPhaseCreated
      \<and> has_condition (Conditions status) queuedTrue
      \<and> (case VeleroBackup status of
            None \<Rightarrow> False
          | Some ref \<Rightarrow> vbName ref = Name (bObjectMeta vb)
                        \<and> vbNamespace ref = Namespace (bObjectMeta vb)))"

text \<open>The writes a step or a pass added to the log.\<close>

definition new_calls :: "cluster \<Rightarrow> cluster \<Rightarrow> api_write list" where
  "new_calls c c' = drop (length (calls c)) (calls c')"

fun is_create :: "api_write \<Rightarrow> bool" where
  "is_create (CreateCall b) = True"
| "is_create (StatusUpdateCall n) = False"

text \<open>The persisted phase of a request, and the moves the lifecycle allows.\<close>

definition stored_phase :: "cluster \<Rightarrow> object_key \<Rightarrow> NonAdminBackupPhase" where
  "stored_phase c k = (case nabs c k of None \<Rightarrow> EmptyString | Some n \<Rightarrow> Phase (Status n))"

definition phase_forward :: "NonAdminBackupPhase \<Rightarrow> NonAdminBackupPhase \<Rightarrow> bool" where
  "phase_forward p p' =
     (p' = p
      \<or> (p = EmptyString \<and> p' = NonAdminBackupPhaseNew)
      \<or> (p = NonAdminBackupPhaseNew
          \<and> (p' = NonAdminBackupPhaseCreated \<or> p' = NonAdminBackupPhaseBackingOff)))"

text \<open>
  What happens to the store over time: a reconcile pass of the request (with the faults of
  that pass), or a change made by someone else: the tenant, the execution engine, the API
  layer. A run is the list of store states, the initial one first.
\<close>

datatype event = Pass faults | Outside "cluster \<Rightarrow> cluster"

fun run :: "NonAdminBackupReconciler \<Rightarrow> function_pkg \<Rightarrow> event list \<Rightarrow> cluster \<Rightarrow> object_key \<Rightarrow> cluster list" where
  "run r fn [] c req = [c]"
| "run r fn (Pass f # es) c req = c # run r fn es (fst (Reconcile r fn f c req)) req"
| "run r fn (Outside g # es) c req = c # run r fn es (g c) req"

fun all_outside :: "((cluster \<Rightarrow> cluster) \<Rightarrow> bool) \<Rightarrow> event list \<Rightarrow> bool" where
  "all_outside P [] = True"
| "all_outside P (Pass f # es) = all_outside P es"
| "all_outside P (Outside g # es) = (P g \<and> all_outside P es)"

text \<open>
  An outside change leaves the status of the request at \<open>req\<close> alone (the status is
  written by the controller only); it may do anything else, such as editing the spec or
  changing execution objects. It keeps the verdict when the validator says the same of the
  request before and after.
\<close>

definition keeps_status :: "object_key \<Rightarrow> (cluster \<Rightarrow> cluster) \<Rightarrow> bool" where
  "keeps_status req g =
     (\<forall>c. map_option Status (nabs (g c) req) = map_option Status (nabs c req))"

definition keeps_verdict :: "function_pkg \<Rightarrow> object_key \<Rightarrow> (cluster \<Rightarrow> cluster) \<Rightarrow> bool" where
  "keeps_verdict fn req g =
     (\<forall>c. map_option (ValidateBackupSpec fn) (nabs (g c) req)
            = map_option (ValidateBackupSpec fn) (nabs c req))"

text \<open>The validator looks at the request's metadata and spec, not at its status.\<close>

definition status_blind :: "function_pkg \<Rightarrow> bool" where
  "status_blind fn = (\<forall>n st. ValidateBackupSpec fn (n\<lparr>Status := st\<rparr>) = ValidateBackupSpec fn n)"

section \<open>Sample objects\<close>

text \<open>
  Modelled from the spec: an instance of the helper package, used to run the controller on
  concrete objects. The validator rejects a spec that names a namespace other than the
  request's own; the name is derived from the request's name and namespace; the labels
  mark the object as managed and the annotations record the originating request.
\<close>

definition sample_function :: function_pkg where
  "sample_function =
     \<lparr>ValidateBackupSpec =
        (\<lambda>nab. if list_all (\<lambda>ns. ns = Namespace (ObjectMeta nab))
                      (IncludedNamespaces (BackupSpec (Spec nab)))
               then None
               else Some (ErrorString ''IncludedNamespaces can not contain other namespaces'')),
      GenerateVeleroBackupName = (\<lambda>ns name. ''exec-'' @ name @ ''-'' @ ns),
      GetNonAdminLabels = [''managed-by'' \<mapsto> ''nac-controller''],
      GetNonAdminBackupAnnotations =
        (\<lambda>m. [''origin-namespace'' \<mapsto> Namespace m, ''origin-name'' \<mapsto> Name m])\<rparr>"

definition sample_reconciler :: NonAdminBackupReconciler where
  "sample_reconciler = \<lparr>OADPNamespace = ''openshift-adp''\<rparr>"

definition status_empty :: NonAdminBackupStatus where
  "status_empty = \<lparr>Phase = '''', Conditions = [], VeleroBackup = None\<rparr>"

definition spec_ns1 :: NonAdminBackupSpec where
  "spec_ns1 =
     \<lparr>BackupSpec = \<lparr>IncludedNamespaces = [''ns1''], ExcludedNamespaces = [],
        IncludedResources = [], StorageLocation = ''default''\<rparr>\<rparr>"

definition spec_abc :: NonAdminBackupSpec where
  "spec_abc =
     \<lparr>BackupSpec = \<lparr>IncludedNamespaces = [''ns1'', ''ns2'', ''ns3''], ExcludedNamespaces = [],
        IncludedResources = [], StorageLocation = ''default''\<rparr>\<rparr>"

definition meta_r1 :: ObjectMeta where
  "meta_r1 = \<lparr>Name = ''r1'', Namespace = ''ns1'', Labels = Map.empty,
     Annotations = Map.empty, Generation = 1\<rparr>"

text \<open>Request r1 in namespace ns1 with a valid spec, as the tenant creates it.\<close>

definition request_r1 :: NonAdminBackup where
  "request_r1 = \<lparr>ObjectMeta = meta_r1, Spec = spec_ns1, Status = status_empty\<rparr>"

definition cluster_r1 :: cluster where
  "cluster_r1 = \<lparr>nabs = [(''ns1'', ''r1'') \<mapsto> request_r1], backups = Map.empty, calls = []\<rparr>"

text \<open>The same request once the Initialize step has run.\<close>

definition request_r1_new :: NonAdminBackup where
  "request_r1_new = request_r1\<lparr>Status := status_empty\<lparr>Phase := ''New''\<rparr>\<rparr>"

definition cluster_r1_new :: cluster where
  "cluster_r1_new =
     \<lparr>nabs = [(''ns1'', ''r1'') \<mapsto> request_r1_new], backups = Map.empty, calls = []\<rparr>"

text \<open>
  A request in namespace ns1 whose embedded spec lists ns1, ns2 and ns3, and the
  execution object the Synchronize step builds for it.
\<close>

definition request_abc :: NonAdminBackup where
  "request_abc = \<lparr>ObjectMeta = meta_r1, Spec = spec_abc, Status = status_empty\<lparr>Phase := ''New''\<rparr>\<rparr>"

definition cluster_abc :: cluster where
  "cluster_abc =
     \<lparr>nabs = [(''ns1'', ''r1'') \<mapsto> request_abc], backups = Map.empty, calls = []\<rparr>"

definition backup_abc :: Backup where
  "backup_abc =
     \<lparr>bObjectMeta =
        \<lparr>Name = ''exec-r1-ns1'', Namespace = ''openshift-adp'',
         Labels = [''managed-by'' \<mapsto> ''nac-controller''],
         Annotations = [''origin-namespace'' \<mapsto> ''ns1'', ''origin-name'' \<mapsto> ''r1''],
         Generation = 0\<rparr>,
      bSpec = \<lparr>IncludedNamespaces = [''ns1''], ExcludedNamespaces = [],
        IncludedResources = [], StorageLocation = ''default''\<rparr>,
      bStatus = BackupStatus_zero\<rparr>"

text \<open>
  Request r2 in namespace ns1 whose spec also lists ns2, which the sample validator
  rejects; the Initialize step has run.
\<close>

definition spec_invalid :: NonAdminBackupSpec where
  "spec_invalid =
     \<lparr>BackupSpec = \<lparr>IncludedNamespaces = [''ns1'', ''ns2''], ExcludedNamespaces = [],
        IncludedResources = [], StorageLocation = ''default''\<rparr>\<rparr>"

definition meta_r2 :: ObjectMeta where
  "meta_r2 = \<lparr>Name = ''r2'', Namespace = ''ns1'', Labels = Map.empty,
     Annotations = Map.empty, Generation = 1\<rparr>"

definition request_r2 :: NonAdminBackup where
  "request_r2 =
     \<lparr>ObjectMeta = meta_r2, Spec = spec_invalid, Status = status_empty\<lparr>Phase := ''New''\<rparr>\<rparr>"

definition cluster_r2 :: cluster where
  "cluster_r2 = \<lparr>nabs = [(''ns1'', ''r2'') \<mapsto> request_r2], backups = Map.empty, calls = []\<rparr>"

definition error_r2 :: error where
  "error_r2 = ErrorString ''IncludedNamespaces can not contain other namespaces''"

text \<open>The status after the bookkeeping writes of lines 236-245.\<close>

definition bookkept :: "nat \<Rightarrow> NonAdminBackupStatus \<Rightarrow> Backup \<Rightarrow> NonAdminBackupStatus" where
  "bookkept t s vb =
     fst (updateNonAdminBackupVeleroBackupReference
            (s\<lparr>Phase := NonAdminBackupPhaseCreated,
               Conditions := fst (SetStatusCondition t (Conditions s) queuedTrue)\<rparr>) vb)"

text \<open>
  Later states of request r1: accepted by the Validate step; recorded by the Synchronize
  step; and with a status snapshot in its reference block. \<open>backup_r1\<close> is its
  execution object as created.
\<close>

definition cond_accepted :: Condition where
  "cond_accepted =
     \<lparr>cType = ''Accepted'', cStatus = ''True'', cObservedGeneration = 0,
      cLastTransitionTime = 7, cReason = ''BackupAccepted'', cMessage = ''backup accepted''\<rparr>"

definition cond_queued :: Condition where
  "cond_queued =
     \<lparr>cType = ''Queued'', cStatus = ''True'', cObservedGeneration = 0,
      cLastTransitionTime = 7, cReason = ''BackupScheduled'',
      cMessage = ''Created Velero Backup object''\<rparr>"

definition status_inprogress :: BackupStatus where
  "status_inprogress = \<lparr>bsPhase = ''InProgress'', bsWarnings = 0, bsErrors = 0\<rparr>"

definition status_completed :: BackupStatus where
  "status_completed = \<lparr>bsPhase = ''Completed'', bsWarnings = 0, bsErrors = 0\<rparr>"

definition backup_r1 :: Backup where
  "backup_r1 =
     \<lparr>bObjectMeta =
        \<lparr>Name = ''exec-r1-ns1'', Namespace = ''openshift-adp'',
         Labels = [''managed-by'' \<mapsto> ''nac-controller''],
         Annotations = [''origin-namespace'' \<mapsto> ''ns1'', ''origin-name'' \<mapsto> ''r1''],
         Generation = 0\<rparr>,
      bSpec = \<lparr>IncludedNamespaces = [''ns1''], ExcludedNamespaces = [],
        IncludedResources = [], StorageLocation = ''default''\<rparr>,
      bStatus = BackupStatus_zero\<rparr>"

definition request_r1_accepted :: NonAdminBackup where
  "request_r1_accepted =
     request_r1\<lparr>Status := \<lparr>Phase = ''New'', Conditions = [cond_accepted], VeleroBackup = None\<rparr>\<rparr>"

definition cluster_r1_accepted :: cluster where
  "cluster_r1_accepted =
     \<lparr>nabs = [(''ns1'', ''r1'') \<mapsto> request_r1_accepted], backups = Map.empty, calls = []\<rparr>"

definition request_r1_mirrored :: "BackupStatus option \<Rightarrow> NonAdminBackup" where
  "request_r1_mirrored snapshot =
     request_r1\<lparr>Status :=
       \<lparr>Phase = ''Created'', Conditions = [cond_accepted, cond_queued],
        VeleroBackup = Some \<lparr>vbName = ''exec-r1-ns1'', vbNamespace = ''openshift-adp'',
                              vbStatus = snapshot\<rparr>\<rparr>\<rparr>"

text \<open>
  Request r1 after its backup completed and was mirrored, in a store where the execution
  object no longer exists.
\<close>

definition cluster_r1_expired :: cluster where
  "cluster_r1_expired =
     \<lparr>nabs = [(''ns1'', ''r1'') \<mapsto> request_r1_mirrored (Some status_completed)],
      backups = Map.empty, calls = []\<rparr>"

text \<open>Request r1 recorded, with its execution object in progress or completed.\<close>

definition cluster_r1_running :: "BackupStatus option \<Rightarrow> BackupStatus \<Rightarrow> cluster" where
  "cluster_r1_running snapshot live =
     \<lparr>nabs = [(''ns1'', ''r1'') \<mapsto> request_r1_mirrored snapshot],
      backups = [(''openshift-adp'', ''exec-r1-ns1'') \<mapsto> backup_r1\<lparr>bStatus := live\<rparr>],
      calls = []\<rparr>"



text \<open>The snapshot in the reference block equals the status of the execution object.\<close>

definition snapshot_current :: "NonAdminBackupStatus \<Rightarrow> Backup \<Rightarrow> bool" where
  "snapshot_current status vb =
     (case VeleroBackup status of None \<Rightarrow> False
      | Some ref \<Rightarrow> vbStatus ref = Some (bStatus vb))"

text \<open>
  A step left the stored requests as they were, or replaced the status of the request at
  \<open>k\<close> by one whose phase is \<open>p\<close>.
\<close>

definition writes_phase :: "cluster \<Rightarrow> cluster \<Rightarrow> object_key \<Rightarrow> NonAdminBackupPhase \<Rightarrow> bool" where
  "writes_phase c c' k p =
     (nabs c' = nabs c
      \<or> (\<exists>stored s. nabs c k = Some stored \<and> Phase s = p
            \<and> nabs c' = (nabs c)(k \<mapsto> stored\<lparr>Status := s\<rparr>)))"

text \<open>
  The phase of a request agrees with the verdict of the validator on it: Created only for
  a valid spec, BackingOff only for an invalid one.
\<close>

definition phase_consistent :: "function_pkg \<Rightarrow> NonAdminBackup \<Rightarrow> bool" where
  "phase_consistent fn n =
     (Phase (Status n) = EmptyString
      \<or> Phase (Status n) = NonAdminBackupPhaseNew
      \<or> (Phase (Status n) = NonAdminBackupPhaseCreated \<and> ValidateBackupSpec fn n = None)
      \<or> (Phase (Status n) = NonAdminBackupPhaseBackingOff \<and> ValidateBackupSpec fn n \<noteq> None))"

text \<open>
  Modelled from the spec: the API layer applying a tenant's edit of the spec of a request;
  it replaces the spec and increments the generation.
\<close>

definition tenant_update :: "cluster \<Rightarrow> object_key \<Rightarrow> NonAdminBackupSpec \<Rightarrow> cluster" where
  "tenant_update c k sp =
     (case nabs c k of
        None \<Rightarrow> c
      | Some n \<Rightarrow>
          c\<lparr>nabs := (nabs c)(k \<mapsto>
               n\<lparr>ObjectMeta := (ObjectMeta n)\<lparr>Generation := Generation (ObjectMeta n) + 1\<rparr>,
                 Spec := sp\<rparr>)\<rparr>)"

text \<open>
  The history of request r2: created with the invalid spec, reconciled twice, then
  corrected by the tenant and reconciled twice more.
\<close>

definition pass_r2 :: "cluster \<Rightarrow> cluster" where
  "pass_r2 c = fst (Reconcile sample_reconciler sample_function (no_faults 7) c (''ns1'', ''r2''))"

definition cluster_r2_created :: cluster where
  "cluster_r2_created =
     \<lparr>nabs = [(''ns1'', ''r2'') \<mapsto> request_r2\<lparr>Status := status_empty\<rparr>],
      backups = Map.empty, calls = []\<rparr>"

definition cluster_r2_rejected :: cluster where
  "cluster_r2_rejected = pass_r2 (pass_r2 cluster_r2_created)"

definition cluster_r2_corrected :: cluster where
  "cluster_r2_corrected = tenant_update cluster_r2_rejected (''ns1'', ''r2'') spec_ns1"

definition cluster_r2_reaccepted :: cluster where
  "cluster_r2_reaccepted = pass_r2 cluster_r2_corrected"

definition cluster_r2_synced :: cluster where
  "cluster_r2_synced = pass_r2 cluster_r2_reaccepted"

text \<open>The four phases of the data model.\<close>

definition known_phase :: "NonAdminBackupPhase \<Rightarrow> bool" where
  "known_phase p =
     (p = EmptyString \<or> p = NonAdminBackupPhaseNew \<or> p = NonAdminBackupPhaseCreated
      \<or> p = NonAdminBackupPhaseBackingOff)"

definition stored_consistent :: "function_pkg \<Rightarrow> cluster \<Rightarrow> object_key \<Rightarrow> bool" where
  "stored_consistent fn c req =
     (case nabs c req of None \<Rightarrow> True | Some n \<Rightarrow> phase_consistent fn n)"

text \<open>
  Three relations between consecutive store states, on the persisted phase of the request
  at \<open>req\<close>. \<open>never_back_step\<close>: a non-empty phase does not become empty, and the
  phase does not become New unless it was New. \<open>forward_step\<close>: the phase stays or
  moves along the lifecycle. \<open>phase_move\<close>: as \<open>forward_step\<close>, or the validator
  contradicts the stored phase and the phase follows the validator, from BackingOff to
  Created or from Created to BackingOff.
\<close>

definition never_back_step :: "object_key \<Rightarrow> cluster \<Rightarrow> cluster \<Rightarrow> bool" where
  "never_back_step req c c' =
     (stored_phase c req \<noteq> EmptyString \<longrightarrow>
        stored_phase c' req \<noteq> EmptyString
        \<and> (stored_phase c' req = NonAdminBackupPhaseNew \<longrightarrow>
              stored_phase c req = NonAdminBackupPhaseNew))"

definition forward_step :: "object_key \<Rightarrow> cluster \<Rightarrow> cluster \<Rightarrow> bool" where
  "forward_step req c c' = phase_forward (stored_phase c req) (stored_phase c' req)"

definition phase_move :: "function_pkg \<Rightarrow> object_key \<Rightarrow> cluster \<Rightarrow> cluster \<Rightarrow> bool" where
  "phase_move fn req c c' =
     (forward_step req c c'
      \<or> (case nabs c req of
            None \<Rightarrow> False
          | Some n \<Rightarrow>
              (Phase (Status n) = NonAdminBackupPhaseBackingOff
               \<and> ValidateBackupSpec fn n = None
               \<and> stored_phase c' req = NonAdminBackupPhaseCreated)
              \<or> (Phase (Status n) = NonAdminBackupPhaseCreated
                  \<and> ValidateBackupSpec fn n \<noteq> None
                  \<and> stored_phase c' req = NonAdminBackupPhaseBackingOff)))"

definition phases_of :: "object_key \<Rightarrow> cluster list \<Rightarrow> NonAdminBackupPhase list" where
  "phases_of req cs = map (\<lambda>c. stored_phase c req) cs"

text \<open>
  Modelled from the spec: the execution engine writing the status of an execution object
  (it is the only writer of that status).
\<close>

definition velero_reports :: "object_key \<Rightarrow> BackupStatus \<Rightarrow> cluster \<Rightarrow> cluster" where
  "velero_reports k st c =
     (case backups c k of
        None \<Rightarrow> c
      | Some b \<Rightarrow> c\<lparr>backups := (backups c)(k \<mapsto> b\<lparr>bStatus := st\<rparr>)\<rparr>)"

text \<open>
  The history of request r2 as a run: two passes, the tenant's correction of the spec, two
  more passes. The history of request r1: three passes, the execution engine reporting
  completion, two more passes.
\<close>

definition history_r2 :: "event list" where
  "history_r2 =
     [Pass (no_faults 7), Pass (no_faults 7),
      Outside (\<lambda>c. tenant_update c (''ns1'', ''r2'') spec_ns1),
      Pass (no_faults 7), Pass (no_faults 7)]"

definition history_r1 :: "event list" where
  "history_r1 =
     [Pass (no_faults 7), Pass (no_faults 7), Pass (no_faults 7),
      Outside (velero_reports (''openshift-adp'', ''exec-r1-ns1'') status_completed),
      Pass (no_faults 7), Pass (no_faults 7)]"

section \<open>Basic facts\<close>

lemmas phase_defs = EmptyString_def NonAdminBackupPhaseNew_def
  NonAdminBackupPhaseBackingOff_def NonAdminBackupPhaseCreated_def

lemmas model_defs = Reconcile_def reconcileSteps_def init_def validateSpec_def
  syncVeleroBackupWithNonAdminBackup_def getOrCreateVeleroBackup_def newVeleroBackup_def
  syncStatus_def updateNonAdminPhase_def updateNonAdminBackupVeleroBackupReference_def
  updateNonAdminBackupVeleroBackupStatus_def SetStatusCondition_def merge_condition_def
  Get_NonAdminBackup_def Get_Backup_def Create_Backup_def Status_Update_def
  nab_key_def backup_key_def IsNotFound_def acceptedTrue_def acceptedFalse_def queuedTrue_def
  NonAdminConditionAccepted_def NonAdminConditionQueued_def ConditionTrue_def ConditionFalse_def
  BackupStatus_zero_def no_faults_def phase_defs

lemmas sample_defs = sample_function_def sample_reconciler_def status_empty_def
  spec_ns1_def spec_abc_def meta_r1_def request_r1_def cluster_r1_def

lemmas r2_defs = spec_invalid_def meta_r2_def request_r2_def cluster_r2_def error_r2_def
  pass_r2_def cluster_r2_created_def cluster_r2_rejected_def cluster_r2_corrected_def
  cluster_r2_reaccepted_def cluster_r2_synced_def tenant_update_def

lemmas history_defs = history_r1_def history_r2_def velero_reports_def phases_of_def

lemmas r1_defs = cond_accepted_def cond_queued_def status_inprogress_def status_completed_def
  backup_r1_def request_r1_accepted_def cluster_r1_accepted_def request_r1_mirrored_def
  cluster_r1_expired_def cluster_r1_running_def

subsection \<open>The store operations\<close>

lemma phases_kept_refl: "phases_kept c c"
  by (simp add: phases_kept_def)

lemma phases_kept_trans: "phases_kept c c' \<Longrightarrow> phases_kept c' c'' \<Longrightarrow> phases_kept c c''"
  unfolding phases_kept_def by blast

lemma Status_Update_phases_kept:
  "Phase (Status nab) \<noteq> EmptyString \<Longrightarrow> Status_Update f c nab = (c', e) \<Longrightarrow> phases_kept c c'"
  by (auto simp: Status_Update_def phases_kept_def Let_def split: option.splits)

lemma Create_Backup_nabs: "Create_Backup f c b = (c', e) \<Longrightarrow> nabs c' = nabs c"
  by (auto simp: Create_Backup_def Let_def split: option.splits)

lemma getOrCreate_nabs:
  "getOrCreateVeleroBackup r fn f c n nab = (c', res) \<Longrightarrow> nabs c' = nabs c"
  by (auto simp: getOrCreateVeleroBackup_def Let_def
      split: sum.splits if_splits prod.splits option.splits dest: Create_Backup_nabs)

subsection \<open>No step empties a phase\<close>

lemma init_phases_kept: "phases_kept c (sCluster (init r fn f c nab))"
  by (auto simp: init_def Let_def updateNonAdminPhase_def phase_defs phases_kept_refl
      split: prod.splits option.splits
      intro!: Status_Update_phases_kept[where nab="nab\<lparr>Status := (Status nab)\<lparr>Phase := ''New''\<rparr>\<rparr>"])

lemma init_phase_nonempty:
  "sErr (init r fn f c nab) = None \<Longrightarrow> Phase (Status (sNab (init r fn f c nab))) \<noteq> EmptyString"
  by (auto simp: init_def Let_def updateNonAdminPhase_def phase_defs
      split: prod.splits option.splits if_splits)

lemma validateSpec_phases_kept:
  "Phase (Status nab) \<noteq> EmptyString \<Longrightarrow> phases_kept c (sCluster (validateSpec r fn f c nab))"
  by (auto simp: validateSpec_def Let_def updateNonAdminPhase_def phase_defs phases_kept_refl
      split: prod.splits option.splits if_splits
      elim!: Status_Update_phases_kept[rotated])

lemma validateSpec_phase_nonempty:
  "Phase (Status nab) \<noteq> EmptyString \<Longrightarrow>
   Phase (Status (sNab (validateSpec r fn f c nab))) \<noteq> EmptyString"
  by (auto simp: validateSpec_def Let_def updateNonAdminPhase_def phase_defs
      split: prod.splits option.splits if_splits)

lemma syncStatus_phases_kept: "phases_kept c (sCluster (syncStatus f c nab vb))"
  by (auto simp: syncStatus_def Let_def updateNonAdminPhase_def phase_defs phases_kept_refl
      updateNonAdminBackupVeleroBackupReference_def updateNonAdminBackupVeleroBackupStatus_def
      split: prod.splits option.splits if_splits
      elim!: Status_Update_phases_kept[rotated])

lemma syncStatus_phase:
  "Phase (Status (sNab (syncStatus f c nab vb))) = NonAdminBackupPhaseCreated"
  by (auto simp: syncStatus_def Let_def updateNonAdminPhase_def phase_defs
      updateNonAdminBackupVeleroBackupReference_def updateNonAdminBackupVeleroBackupStatus_def
      split: prod.splits option.splits if_splits)

lemma sync_phases_kept:
  "phases_kept c (sCluster (syncVeleroBackupWithNonAdminBackup r fn f c nab))"
proof -
  have *: "phases_kept c c'" if "nabs c' = nabs c" for c'
    using that by (simp add: phases_kept_def)
  show ?thesis
    by (auto simp: syncVeleroBackupWithNonAdminBackup_def Let_def phases_kept_refl
        split: prod.splits sum.splits
        intro: phases_kept_trans[OF _ syncStatus_phases_kept] dest!: getOrCreate_nabs *)
qed

lemma runSteps_phases_kept:
  "phases_kept c (fst (runSteps (reconcileSteps r fn) f c nab))"
proof -
  let ?r1 = "init r fn f c nab"
  let ?r2 = "validateSpec r fn f (sCluster ?r1) (sNab ?r1)"
  let ?r3 = "syncVeleroBackupWithNonAdminBackup r fn f (sCluster ?r2) (sNab ?r2)"
  have k1: "phases_kept c (sCluster ?r1)" by (rule init_phases_kept)
  have k2: "phases_kept c (sCluster ?r2)" if "sErr ?r1 = None"
    using that init_phase_nonempty validateSpec_phases_kept k1 phases_kept_trans by blast
  have k3: "phases_kept c (sCluster ?r3)" if "sErr ?r1 = None"
    using k2[OF that] sync_phases_kept phases_kept_trans by blast
  show ?thesis
    using k1 k2 k3
    by (auto simp: reconcileSteps_def Let_def split: option.splits)
qed

lemma Reconcile_phases_kept: "phases_kept c (fst (Reconcile r fn f c req))"
  by (auto simp: Reconcile_def phases_kept_refl runSteps_phases_kept split: sum.splits)

section \<open>The phase is never reset to empty\<close>

text \<open>
  C10. \<open>updateNonAdminPhase\<close> called with the empty string as new phase leaves the
  stored phase as it is and returns false; in general it returns true exactly when it
  changed the stored phase; a non-empty phase stays non-empty. Hence a reconcile pass
  never leaves a request that had a non-empty phase with an empty one.
\<close>

theorem updateNonAdminPhase_never_resets:
  "updateNonAdminPhase phase EmptyString = (phase, False)
   \<and> snd (updateNonAdminPhase phase newPhase) = (fst (updateNonAdminPhase phase newPhase) \<noteq> phase)
   \<and> (phase \<noteq> EmptyString \<longrightarrow> fst (updateNonAdminPhase phase newPhase) \<noteq> EmptyString)
   \<and> phases_kept c (fst (Reconcile r fn f c req))"
  by (auto simp: updateNonAdminPhase_def Reconcile_phases_kept)

theorem updateNonAdminPhase_never_resets_witness:
  "updateNonAdminPhase ''New'' EmptyString = (''New'', False)
   \<and> ''New'' \<noteq> EmptyString
   \<and> updateNonAdminPhase ''New'' ''Created'' = (''Created'', True)
   \<and> nabs cluster_r1_new (''ns1'', ''r1'') = Some request_r1_new
   \<and> Phase (Status request_r1_new) \<noteq> EmptyString
   \<and> (\<exists>n'. nabs (fst (Reconcile sample_reconciler sample_function (no_faults 7) cluster_r1_new
                 (''ns1'', ''r1''))) (''ns1'', ''r1'') = Some n'
          \<and> Phase (Status n') \<noteq> EmptyString)"
proof -
  have h: "nabs cluster_r1_new (''ns1'', ''r1'') = Some request_r1_new
           \<and> Phase (Status request_r1_new) \<noteq> EmptyString"
    by (simp add: cluster_r1_new_def request_r1_new_def EmptyString_def)
  from updateNonAdminPhase_never_resets[of "''New''" "''Created''" cluster_r1_new sample_reconciler
      sample_function "no_faults 7" "(''ns1'', ''r1'')"]
  have "phases_kept cluster_r1_new (fst (Reconcile sample_reconciler sample_function (no_faults 7)
          cluster_r1_new (''ns1'', ''r1'')))"
    and "updateNonAdminPhase ''New'' EmptyString = (''New'', False)"
    by simp_all
  with h show ?thesis
    unfolding phases_kept_def by (simp add: updateNonAdminPhase_def EmptyString_def)
qed

section \<open>The request-object event filter\<close>

text \<open>
  C9. The request-object predicate accepts every Create event and every Delete event, and
  accepts an Update event exactly when the generation of the new object differs from the
  generation of the old one; an update that changes only the status is rejected.
\<close>

theorem NonAdminBackupPredicate_admission:
  "Create ce = True \<and> Delete de = True
   \<and> Update ue = (GetGeneration (ObjectNew ue) \<noteq> GetGeneration (ObjectOld ue))
   \<and> Update \<lparr>ObjectOld = nab, ObjectNew = nab\<lparr>Status := st\<rparr>\<rparr> = False"
  by (simp add: Create_def Delete_def Update_def GetGeneration_def)

section \<open>The Initialize step\<close>

lemma Status_Update_calls:
  "Status_Update f c nab = (c', e) \<Longrightarrow> calls c' = calls c @ [StatusUpdateCall nab]"
  by (auto simp: Status_Update_def Let_def split: option.splits)

lemma Status_Update_backups:
  "Status_Update f c nab = (c', e) \<Longrightarrow> backups c' = backups c"
  by (auto simp: Status_Update_def Let_def split: option.splits)

lemma Status_Update_ok:
  "updateErr f = None \<Longrightarrow> nabs c (nab_key nab) = Some stored \<Longrightarrow>
   Status_Update f c nab =
     (c\<lparr>calls := calls c @ [StatusUpdateCall nab],
        nabs := (nabs c)(nab_key nab \<mapsto> stored\<lparr>Status := Status nab\<rparr>)\<rparr>, None)"
  by (simp add: Status_Update_def Let_def)

lemma Status_Update_None:
  "Status_Update f c nab = (c', None) \<Longrightarrow>
   \<exists>stored. nabs c (nab_key nab) = Some stored
     \<and> nabs c' = (nabs c)(nab_key nab \<mapsto> stored\<lparr>Status := Status nab\<rparr>)"
  by (auto simp: Status_Update_def Let_def split: option.splits)

lemma init_empty_ok:
  assumes "Phase (Status nab) = EmptyString" "updateErr f = None" "nabs c (nab_key nab) = Some stored"
  shows "init r fn f c nab =
     \<lparr>sCluster = c\<lparr>calls := calls c @ [StatusUpdateCall (nab\<lparr>Status := (Status nab)\<lparr>Phase := NonAdminBackupPhaseNew\<rparr>\<rparr>)],
         nabs := (nabs c)(nab_key nab \<mapsto> stored\<lparr>Status := (Status nab)\<lparr>Phase := NonAdminBackupPhaseNew\<rparr>\<rparr>)\<rparr>,
      sNab = nab\<lparr>Status := (Status nab)\<lparr>Phase := NonAdminBackupPhaseNew\<rparr>\<rparr>,
      sRequeue = True, sErr = None\<rparr>"
proof -
  have k: "nab_key (nab\<lparr>Status := s\<rparr>) = nab_key nab" for s
    by (simp add: nab_key_def)
  show ?thesis
    using assms
    by (simp add: init_def Let_def updateNonAdminPhase_def phase_defs Status_Update_ok[where stored=stored] k)
qed

lemma init_nonempty:
  "Phase (Status nab) \<noteq> EmptyString \<Longrightarrow>
   init r fn f c nab = \<lparr>sCluster = c, sNab = nab, sRequeue = False, sErr = None\<rparr>"
  by (simp add: init_def)

lemma init_empty_result:
  assumes "Phase (Status nab) = EmptyString"
  shows "sErr (init r fn f c nab) = None \<longrightarrow>
           sRequeue (init r fn f c nab)
           \<and> stored_phase (sCluster (init r fn f c nab)) (nab_key nab) = NonAdminBackupPhaseNew"
  using assms
  by (auto simp: init_def Let_def updateNonAdminPhase_def phase_defs stored_phase_def nab_key_def
      split: prod.splits option.splits dest!: Status_Update_None)

lemma stored_phase_kept:
  "phases_kept c c' \<Longrightarrow> stored_phase c k \<noteq> EmptyString \<Longrightarrow> stored_phase c' k \<noteq> EmptyString"
proof -
  assume k: "phases_kept c c'" and p: "stored_phase c k \<noteq> EmptyString"
  from p obtain n where n: "nabs c k = Some n" "Phase (Status n) \<noteq> EmptyString"
    by (auto simp: stored_phase_def split: option.splits)
  with k obtain n' where "nabs c' k = Some n'" "Phase (Status n') \<noteq> EmptyString"
    unfolding phases_kept_def by blast
  then show ?thesis by (simp add: stored_phase_def)
qed

lemma Reconcile_leaves_phase_set:
  assumes "Get_NonAdminBackup f c req = Inr nab" "nab_key nab = req"
    "snd (snd (Reconcile r fn f c req)) = None"
  shows "stored_phase (fst (Reconcile r fn f c req)) req \<noteq> EmptyString"
proof (cases "Phase (Status nab) = EmptyString")
  case True
  from init_empty_result[OF True, of r fn f c] assms show ?thesis
    by (auto simp: Reconcile_def reconcileSteps_def Let_def phase_defs split: option.splits)
next
  case False
  from assms(1) have "nabs c req = Some nab"
    by (auto simp: Get_NonAdminBackup_def split: option.splits)
  with False have "stored_phase c req \<noteq> EmptyString"
    by (simp add: stored_phase_def)
  then show ?thesis
    using Reconcile_phases_kept stored_phase_kept by blast
qed

text \<open>
  C8. Given a request whose phase is empty, the Initialize step sets the phase to New,
  persists the status and signals requeue (the store accepting the write); given a request
  whose phase is not empty it changes nothing and signals neither requeue nor error. Hence
  after a pass over an existing request that returns without error, the persisted phase
  is not empty.
\<close>

theorem init_sets_phase_once:
  "(Phase (Status nab) = EmptyString \<and> updateErr f = None \<and> nabs c (nab_key nab) = Some stored \<longrightarrow>
      init r fn f c nab =
        \<lparr>sCluster = c\<lparr>calls := calls c @ [StatusUpdateCall (nab\<lparr>Status := (Status nab)\<lparr>Phase := NonAdminBackupPhaseNew\<rparr>\<rparr>)],
           nabs := (nabs c)(nab_key nab \<mapsto> stored\<lparr>Status := (Status nab)\<lparr>Phase := NonAdminBackupPhaseNew\<rparr>\<rparr>)\<rparr>,
         sNab = nab\<lparr>Status := (Status nab)\<lparr>Phase := NonAdminBackupPhaseNew\<rparr>\<rparr>,
         sRequeue = True, sErr = None\<rparr>)
   \<and> (Phase (Status nab) \<noteq> EmptyString \<longrightarrow>
        init r fn f c nab = \<lparr>sCluster = c, sNab = nab, sRequeue = False, sErr = None\<rparr>)
   \<and> (Get_NonAdminBackup f c req = Inr nab \<and> nab_key nab = req
        \<and> snd (snd (Reconcile r fn f c req)) = None \<longrightarrow>
        stored_phase (fst (Reconcile r fn f c req)) req \<noteq> EmptyString)"
  using init_empty_ok init_nonempty Reconcile_leaves_phase_set by blast

theorem init_sets_phase_once_witness:
  "Phase (Status request_r1) = EmptyString \<and> updateErr (no_faults 7) = None
   \<and> nabs cluster_r1 (nab_key request_r1) = Some request_r1
   \<and> Phase (Status (sNab (init sample_reconciler sample_function (no_faults 7) cluster_r1 request_r1))) = ''New''
   \<and> sRequeue (init sample_reconciler sample_function (no_faults 7) cluster_r1 request_r1)
   \<and> Phase (Status request_r1_new) \<noteq> EmptyString
   \<and> init sample_reconciler sample_function (no_faults 7) cluster_r1_new request_r1_new
       = \<lparr>sCluster = cluster_r1_new, sNab = request_r1_new, sRequeue = False, sErr = None\<rparr>
   \<and> Get_NonAdminBackup (no_faults 7) cluster_r1 (''ns1'', ''r1'') = Inr request_r1
   \<and> nab_key request_r1 = (''ns1'', ''r1'')
   \<and> snd (snd (Reconcile sample_reconciler sample_function (no_faults 7) cluster_r1 (''ns1'', ''r1''))) = None
   \<and> stored_phase (fst (Reconcile sample_reconciler sample_function (no_faults 7) cluster_r1 (''ns1'', ''r1'')))
        (''ns1'', ''r1'') \<noteq> EmptyString"
proof -
  have h1: "Phase (Status request_r1) = EmptyString \<and> updateErr (no_faults 7) = None
     \<and> nabs cluster_r1 (nab_key request_r1) = Some request_r1"
    by (simp add: sample_defs model_defs)
  have h2: "Phase (Status request_r1_new) \<noteq> EmptyString"
    by (simp add: request_r1_new_def sample_defs model_defs)
  have h3: "Get_NonAdminBackup (no_faults 7) cluster_r1 (''ns1'', ''r1'') = Inr request_r1
     \<and> nab_key request_r1 = (''ns1'', ''r1'')
     \<and> snd (snd (Reconcile sample_reconciler sample_function (no_faults 7) cluster_r1 (''ns1'', ''r1''))) = None"
    by (simp add: sample_defs model_defs Let_def)
  from init_sets_phase_once[of request_r1 "no_faults 7" cluster_r1 request_r1 sample_reconciler
      sample_function "(''ns1'', ''r1'')"] h1 h3
  have a: "init sample_reconciler sample_function (no_faults 7) cluster_r1 request_r1 =
        \<lparr>sCluster = cluster_r1\<lparr>calls := calls cluster_r1 @ [StatusUpdateCall (request_r1\<lparr>Status := (Status request_r1)\<lparr>Phase := NonAdminBackupPhaseNew\<rparr>\<rparr>)],
           nabs := (nabs cluster_r1)(nab_key request_r1 \<mapsto> request_r1\<lparr>Status := (Status request_r1)\<lparr>Phase := NonAdminBackupPhaseNew\<rparr>\<rparr>)\<rparr>,
         sNab = request_r1\<lparr>Status := (Status request_r1)\<lparr>Phase := NonAdminBackupPhaseNew\<rparr>\<rparr>,
         sRequeue = True, sErr = None\<rparr>"
    and b: "stored_phase (fst (Reconcile sample_reconciler sample_function (no_faults 7) cluster_r1 (''ns1'', ''r1'')))
        (''ns1'', ''r1'') \<noteq> EmptyString"
    by blast+
  from init_sets_phase_once[of request_r1_new "no_faults 7" cluster_r1_new request_r1_new sample_reconciler
      sample_function "(''ns1'', ''r1'')"] h2
  have c: "init sample_reconciler sample_function (no_faults 7) cluster_r1_new request_r1_new
       = \<lparr>sCluster = cluster_r1_new, sNab = request_r1_new, sRequeue = False, sErr = None\<rparr>"
    by blast
  show ?thesis
    using h1 h2 h3 b c by (simp add: a NonAdminBackupPhaseNew_def)
qed

section \<open>The Synchronize step: what it sends to the store\<close>

lemma syncStatus_calls:
  "calls (sCluster (syncStatus f c nab vb)) = calls c
   \<or> (\<exists>n. calls (sCluster (syncStatus f c nab vb)) = calls c @ [StatusUpdateCall n])"
  by (auto simp: syncStatus_def Let_def split: prod.splits option.splits dest: Status_Update_calls)

lemma syncStatus_backups: "backups (sCluster (syncStatus f c nab vb)) = backups c"
  by (auto simp: syncStatus_def Let_def split: prod.splits option.splits dest: Status_Update_backups)

lemma Create_Backup_calls:
  "Create_Backup f c b = (c', e) \<Longrightarrow> calls c' = calls c @ [CreateCall b]"
  by (auto simp: Create_Backup_def Let_def split: option.splits)

lemma Create_Backup_backups:
  "Create_Backup f c b = (c', e) \<Longrightarrow>
   backups c' = backups c \<or> (backups c (backup_key b) = None \<and> backups c' = (backups c)(backup_key b \<mapsto> b))"
  by (auto simp: Create_Backup_def Let_def split: option.splits)

lemma getOrCreate_calls:
  "getOrCreateVeleroBackup r fn f c name nab = (c', res) \<Longrightarrow>
   calls c' = calls c \<or> calls c' = calls c @ [CreateCall (newVeleroBackup r fn name nab)]"
  by (auto simp: getOrCreateVeleroBackup_def Let_def
      split: sum.splits if_splits prod.splits option.splits dest: Create_Backup_calls)

lemma getOrCreate_backups:
  "getOrCreateVeleroBackup r fn f c name nab = (c', res) \<Longrightarrow>
   backups c' = backups c
   \<or> backups c' = (backups c)(backup_key (newVeleroBackup r fn name nab) \<mapsto> newVeleroBackup r fn name nab)"
  by (auto simp: getOrCreateVeleroBackup_def Let_def
      split: sum.splits if_splits prod.splits option.splits dest: Create_Backup_backups)

lemma sync_creates:
  "CreateCall b \<in> set (new_calls c (sCluster (syncVeleroBackupWithNonAdminBackup r fn f c nab))) \<Longrightarrow>
   b = newVeleroBackup r fn
         (GenerateVeleroBackupName fn (Namespace (ObjectMeta nab)) (Name (ObjectMeta nab))) nab"
proof -
  let ?name = "GenerateVeleroBackupName fn (Namespace (ObjectMeta nab)) (Name (ObjectMeta nab))"
  assume a: "CreateCall b \<in> set (new_calls c (sCluster (syncVeleroBackupWithNonAdminBackup r fn f c nab)))"
  obtain c' res where g: "getOrCreateVeleroBackup r fn f c ?name nab = (c', res)"
    by (cases "getOrCreateVeleroBackup r fn f c ?name nab")
  from getOrCreate_calls[OF g] have c': "new_calls c c' = [] \<or> new_calls c c' = [CreateCall (newVeleroBackup r fn ?name nab)]"
    by (auto simp: new_calls_def)
  show ?thesis
  proof (cases "?name = EmptyString")
    case True
    with a show ?thesis by (simp add: syncVeleroBackupWithNonAdminBackup_def new_calls_def)
  next
    case False
    show ?thesis
    proof (cases res)
      case (Inl e)
      with a g False c' show ?thesis
        by (auto simp: syncVeleroBackupWithNonAdminBackup_def)
    next
      case (Inr vb)
      with g False have s: "syncVeleroBackupWithNonAdminBackup r fn f c nab = syncStatus f c' nab vb"
        by (simp add: syncVeleroBackupWithNonAdminBackup_def)
      from syncStatus_calls[of f c' nab vb] getOrCreate_calls[OF g] a c' show ?thesis
        unfolding s by (auto simp: new_calls_def)
    qed
  qed
qed

lemma sync_backups:
  "backups (sCluster (syncVeleroBackupWithNonAdminBackup r fn f c nab)) k = Some b \<Longrightarrow>
   backups c k = None \<Longrightarrow>
   b = newVeleroBackup r fn
         (GenerateVeleroBackupName fn (Namespace (ObjectMeta nab)) (Name (ObjectMeta nab))) nab"
proof -
  let ?name = "GenerateVeleroBackupName fn (Namespace (ObjectMeta nab)) (Name (ObjectMeta nab))"
  assume a: "backups (sCluster (syncVeleroBackupWithNonAdminBackup r fn f c nab)) k = Some b"
    and n: "backups c k = None"
  obtain c' res where g: "getOrCreateVeleroBackup r fn f c ?name nab = (c', res)"
    by (cases "getOrCreateVeleroBackup r fn f c ?name nab")
  have "backups (sCluster (syncVeleroBackupWithNonAdminBackup r fn f c nab)) = backups c
        \<or> backups (sCluster (syncVeleroBackupWithNonAdminBackup r fn f c nab)) = backups c'"
    using g by (auto simp: syncVeleroBackupWithNonAdminBackup_def Let_def syncStatus_backups
        split: sum.splits)
  with getOrCreate_backups[OF g] a n show ?thesis
    by (auto split: if_splits)
qed

lemma newVeleroBackup_scope:
  "IncludedNamespaces (bSpec (newVeleroBackup r fn name nab)) = [Namespace (ObjectMeta nab)]"
  by (simp add: newVeleroBackup_def)

text \<open>
  C1. Whatever the request's embedded spec lists, every execution object that the
  Synchronize step sends to the store for creation, and every execution object that the
  step adds to the store, has as its included namespaces exactly the request's own
  namespace.
\<close>

theorem sync_narrows_scope:
  "(\<forall>b. CreateCall b \<in> set (new_calls c (sCluster (syncVeleroBackupWithNonAdminBackup r fn f c nab)))
        \<longrightarrow> IncludedNamespaces (bSpec b) = [Namespace (ObjectMeta nab)])
   \<and> (\<forall>k b. backups c k = None
          \<and> backups (sCluster (syncVeleroBackupWithNonAdminBackup r fn f c nab)) k = Some b
        \<longrightarrow> set (IncludedNamespaces (bSpec b)) = {Namespace (ObjectMeta nab)})"
  using sync_creates[of _ c r fn f nab] sync_backups[of r fn f c nab] newVeleroBackup_scope
  by (metis empty_set list.simps(15))

theorem sync_narrows_scope_witness:
  "CreateCall backup_abc \<in> set (new_calls cluster_abc (sCluster
       (syncVeleroBackupWithNonAdminBackup sample_reconciler sample_function (no_faults 7)
          cluster_abc request_abc)))
   \<and> IncludedNamespaces (BackupSpec (Spec request_abc)) = [''ns1'', ''ns2'', ''ns3'']
   \<and> IncludedNamespaces (bSpec backup_abc) = [''ns1'']
   \<and> backups cluster_abc (''openshift-adp'', ''exec-r1-ns1'') = None
   \<and> backups (sCluster (syncVeleroBackupWithNonAdminBackup sample_reconciler sample_function
         (no_faults 7) cluster_abc request_abc)) (''openshift-adp'', ''exec-r1-ns1'') = Some backup_abc
   \<and> set (IncludedNamespaces (bSpec backup_abc)) = {Namespace (ObjectMeta request_abc)}"
proof -
  have h1: "CreateCall backup_abc \<in> set (new_calls cluster_abc (sCluster
       (syncVeleroBackupWithNonAdminBackup sample_reconciler sample_function (no_faults 7)
          cluster_abc request_abc)))"
    by (simp add: model_defs sample_defs request_abc_def cluster_abc_def backup_abc_def
        new_calls_def Let_def)
  have h2: "backups cluster_abc (''openshift-adp'', ''exec-r1-ns1'') = None
   \<and> backups (sCluster (syncVeleroBackupWithNonAdminBackup sample_reconciler sample_function
         (no_faults 7) cluster_abc request_abc)) (''openshift-adp'', ''exec-r1-ns1'') = Some backup_abc"
    by (simp add: model_defs sample_defs request_abc_def cluster_abc_def backup_abc_def Let_def)
  have h3: "IncludedNamespaces (BackupSpec (Spec request_abc)) = [''ns1'', ''ns2'', ''ns3'']"
    by (simp add: request_abc_def spec_abc_def)
  from sync_narrows_scope[of cluster_abc sample_reconciler sample_function "no_faults 7" request_abc]
    h1 h2
  have "IncludedNamespaces (bSpec backup_abc) = [Namespace (ObjectMeta request_abc)]"
    and "set (IncludedNamespaces (bSpec backup_abc)) = {Namespace (ObjectMeta request_abc)}"
    by blast+
  with h1 h2 h3 show ?thesis
    by (simp add: request_abc_def meta_r1_def)
qed

section \<open>Conditions\<close>

lemma Find_Some:
  "FindStatusCondition cs t = Some i \<Longrightarrow>
   i < length cs \<and> cType (cs ! i) = t \<and> (\<forall>j<i. cType (cs ! j) \<noteq> t)"
proof (induction cs arbitrary: i)
  case Nil
  then show ?case by simp
next
  case (Cons c cs)
  show ?case
  proof (cases "cType c = t")
    case True
    with Cons.prems show ?thesis by simp
  next
    case False
    with Cons.prems obtain i' where i': "FindStatusCondition cs t = Some i'" "i = Suc i'"
      by (auto split: option.splits)
    from Cons.IH[OF i'(1)] False i'(2) show ?thesis
      by (auto simp: less_Suc_eq_0_disj)
  qed
qed

lemma Find_None: "FindStatusCondition cs t = None \<Longrightarrow> \<forall>c\<in>set cs. cType c \<noteq> t"
  by (induction cs) (auto split: if_splits option.splits)

lemma Find_first:
  "i < length cs \<Longrightarrow> cType (cs ! i) = t \<Longrightarrow> \<forall>j<i. cType (cs ! j) \<noteq> t \<Longrightarrow>
   FindStatusCondition cs t = Some i"
proof (induction cs arbitrary: i)
  case Nil
  then show ?case by simp
next
  case (Cons c cs)
  show ?case
  proof (cases i)
    case 0
    with Cons.prems show ?thesis by simp
  next
    case (Suc i')
    with Cons.prems have "cType c \<noteq> t" by auto
    moreover from Suc Cons.prems have "FindStatusCondition cs t = Some i'"
      by (intro Cons.IH) auto
    ultimately show ?thesis using Suc by simp
  qed
qed

lemma Find_update:
  "FindStatusCondition cs t = Some i \<Longrightarrow> cType c' = cType (cs ! i) \<Longrightarrow>
   FindStatusCondition (cs[i := c']) t' = FindStatusCondition cs t'"
proof (induction cs arbitrary: i)
  case Nil
  then show ?case by simp
next
  case (Cons c cs)
  show ?case
  proof (cases i)
    case 0
    with Cons.prems show ?thesis by simp
  next
    case (Suc i')
    with Cons.prems have "FindStatusCondition cs t = Some i'"
      by (auto split: if_splits option.splits)
    from Cons.IH[OF this] Cons.prems(2) Suc show ?thesis by simp
  qed
qed

lemma Find_append:
  "FindStatusCondition (cs @ [c]) t =
     (case FindStatusCondition cs t of
        Some i \<Rightarrow> Some i
      | None \<Rightarrow> if cType c = t then Some (length cs) else None)"
  by (induction cs) (auto split: option.splits)

lemma merge_condition_fields:
  "cType (fst (merge_condition t e n)) = cType e"
  "cStatus (fst (merge_condition t e n)) = cStatus n"
  "cReason (fst (merge_condition t e n)) = cReason n"
  "cMessage (fst (merge_condition t e n)) = cMessage n"
  "cObservedGeneration (fst (merge_condition t e n)) = cObservedGeneration n"
  by (simp_all add: merge_condition_def Let_def split: prod.splits if_splits)

lemma merge_condition_changed:
  "snd (merge_condition t e n) = (fst (merge_condition t e n) \<noteq> e)"
  by (cases e) (auto simp: merge_condition_def Let_def split: prod.splits if_splits)

lemma merge_condition_same:
  "cType e = cType n \<Longrightarrow> snd (merge_condition t e n) = (\<not> same_condition e n)"
  by (auto simp: merge_condition_def Let_def same_condition_def split: prod.splits if_splits)

lemma SetStatusCondition_has:
  "has_condition (fst (SetStatusCondition t cs d)) d"
proof (cases "FindStatusCondition cs (cType d)")
  case None
  then show ?thesis
    by (simp add: SetStatusCondition_def has_condition_def condition_of_def Find_append
        same_condition_def)
next
  case (Some i)
  from Find_Some[OF Some] have i: "i < length cs" "cType (cs ! i) = cType d" by auto
  have "FindStatusCondition (cs[i := fst (merge_condition t (cs ! i) d)]) (cType d) = Some i"
    using Find_update[OF Some, of "fst (merge_condition t (cs ! i) d)"] Some
    by (simp add: merge_condition_fields)
  with Some i show ?thesis
    by (simp add: SetStatusCondition_def has_condition_def condition_of_def same_condition_def
        merge_condition_fields case_prod_beta)
qed

lemma SetStatusCondition_changed:
  "snd (SetStatusCondition t cs d) = (fst (SetStatusCondition t cs d) \<noteq> cs)"
proof (cases "FindStatusCondition cs (cType d)")
  case None
  then show ?thesis by (simp add: SetStatusCondition_def)
next
  case (Some i)
  from Find_Some[OF Some] have i: "i < length cs" by auto
  have "(cs[i := x] \<noteq> cs) = (x \<noteq> cs ! i)" for x
    using i by (metis list_update_id nth_list_update_eq)
  with Some show ?thesis
    using merge_condition_changed[of t "cs ! i" d]
    by (simp add: SetStatusCondition_def case_prod_beta)
qed

lemma SetStatusCondition_unchanged_iff:
  "snd (SetStatusCondition t cs d) = (\<not> has_condition cs d)"
proof (cases "FindStatusCondition cs (cType d)")
  case None
  then show ?thesis by (simp add: SetStatusCondition_def has_condition_def condition_of_def)
next
  case (Some i)
  from Find_Some[OF Some] have i: "cType (cs ! i) = cType d" by auto
  from Some merge_condition_same[OF i, of t] show ?thesis
    by (simp add: SetStatusCondition_def has_condition_def condition_of_def case_prod_beta)
qed

lemma SetStatusCondition_noop:
  "has_condition cs d \<Longrightarrow> SetStatusCondition t cs d = (cs, False)"
  using SetStatusCondition_unchanged_iff[of t cs d] SetStatusCondition_changed[of t cs d]
  by (cases "SetStatusCondition t cs d") auto

lemma SetStatusCondition_other:
  "t' \<noteq> cType d \<Longrightarrow>
   condition_of (fst (SetStatusCondition t cs d)) t' = condition_of cs t'"
proof (cases "FindStatusCondition cs (cType d)")
  case None
  assume "t' \<noteq> cType d"
  with None show ?thesis
    by (auto simp: SetStatusCondition_def condition_of_def Find_append nth_append
        split: option.splits dest: Find_Some)
next
  case (Some i)
  assume n: "t' \<noteq> cType d"
  from Find_Some[OF Some] have i: "i < length cs" "cType (cs ! i) = cType d" by auto
  have f: "FindStatusCondition (cs[i := fst (merge_condition t (cs ! i) d)]) t' = FindStatusCondition cs t'"
    using Find_update[OF Some, of "fst (merge_condition t (cs ! i) d)"]
    by (simp add: merge_condition_fields)
  show ?thesis
  proof (cases "FindStatusCondition cs t'")
    case None
    with f Some show ?thesis by (simp add: SetStatusCondition_def condition_of_def case_prod_beta)
  next
    case (Some j)
    from Find_Some[OF Some] i n have "j \<noteq> i" by auto
    with f Some \<open>FindStatusCondition cs (cType d) = Some i\<close> show ?thesis
      by (simp add: SetStatusCondition_def condition_of_def case_prod_beta)
  qed
qed

section \<open>The Validate step on an invalid spec\<close>

lemma nab_key_Status [simp]: "nab_key (nab\<lparr>Status := s\<rparr>) = nab_key nab"
  by (simp add: nab_key_def)

lemma Status_id: "nab\<lparr>Status := Status nab\<rparr> = nab"
  by simp

lemma validateSpec_invalid:
  assumes "ValidateBackupSpec fn nab = Some err"
  shows "validateSpec r fn f c nab =
     (let st' = (Status nab)\<lparr>Phase := NonAdminBackupPhaseBackingOff,
                  Conditions := fst (SetStatusCondition (now f) (Conditions (Status nab)) (acceptedFalse err))\<rparr>;
          nab' = nab\<lparr>Status := st'\<rparr>
      in if st' \<noteq> Status nab then
           \<lparr>sCluster = fst (Status_Update f c nab'), sNab = nab', sRequeue = False,
            sErr = Some (case snd (Status_Update f c nab') of Some ue \<Rightarrow> ue | None \<Rightarrow> TerminalError err)\<rparr>
         else \<lparr>sCluster = c, sNab = nab, sRequeue = False, sErr = Some (TerminalError err)\<rparr>)"
proof -
  let ?cs = "Conditions (Status nab)"
  let ?set = "SetStatusCondition (now f) ?cs (acceptedFalse err)"
  have ph: "updateNonAdminPhase (Phase (Status nab)) NonAdminBackupPhaseBackingOff
            = (NonAdminBackupPhaseBackingOff, Phase (Status nab) \<noteq> NonAdminBackupPhaseBackingOff)"
    by (auto simp: updateNonAdminPhase_def phase_defs)
  have ch: "(Phase (Status nab) \<noteq> NonAdminBackupPhaseBackingOff \<or> snd ?set)
        = ((Status nab)\<lparr>Phase := NonAdminBackupPhaseBackingOff, Conditions := fst ?set\<rparr> \<noteq> Status nab)"
    unfolding SetStatusCondition_changed
    by (cases "Status nab") auto
  have same: "nab\<lparr>Status := (Status nab)\<lparr>Phase := NonAdminBackupPhaseBackingOff, Conditions := fst ?set\<rparr>\<rparr> = nab"
    if "(Status nab)\<lparr>Phase := NonAdminBackupPhaseBackingOff, Conditions := fst ?set\<rparr> = Status nab"
    using that by simp
  show ?thesis
    using assms ch same
    by (simp add: validateSpec_def ph Let_def case_prod_beta split: option.splits)
qed

lemma init_empty_stops:
  "Phase (Status nab) = EmptyString \<Longrightarrow>
   sErr (init r fn f c nab) \<noteq> None \<or> sRequeue (init r fn f c nab)"
  by (auto simp: init_def Let_def updateNonAdminPhase_def phase_defs split: prod.splits option.splits)

lemma init_backups: "backups (sCluster (init r fn f c nab)) = backups c"
  by (auto simp: init_def Let_def split: prod.splits option.splits dest: Status_Update_backups)

lemma init_calls:
  "calls (sCluster (init r fn f c nab)) = calls c
   \<or> (\<exists>n. calls (sCluster (init r fn f c nab)) = calls c @ [StatusUpdateCall n])"
  by (auto simp: init_def Let_def split: prod.splits option.splits dest: Status_Update_calls)

lemma validateSpec_backups: "backups (sCluster (validateSpec r fn f c nab)) = backups c"
  by (auto simp: validateSpec_def Let_def split: prod.splits option.splits dest: Status_Update_backups)

lemma validateSpec_calls:
  "calls (sCluster (validateSpec r fn f c nab)) = calls c
   \<or> (\<exists>n. calls (sCluster (validateSpec r fn f c nab)) = calls c @ [StatusUpdateCall n])"
  by (auto simp: validateSpec_def Let_def split: prod.splits option.splits dest: Status_Update_calls)

lemma validateSpec_invalid_err:
  "ValidateBackupSpec fn nab = Some err \<Longrightarrow> sErr (validateSpec r fn f c nab) \<noteq> None"
  by (simp add: validateSpec_invalid Let_def)

lemma Reconcile_invalid_stops:
  assumes "Get_NonAdminBackup f c req = Inr nab" "ValidateBackupSpec fn nab = Some err"
  shows "fst (Reconcile r fn f c req) = sCluster (init r fn f c nab)
         \<or> (Phase (Status nab) \<noteq> EmptyString
            \<and> Reconcile r fn f c req =
                (sCluster (validateSpec r fn f c nab), \<lparr>Requeue = False\<rparr>,
                 sErr (validateSpec r fn f c nab)))"
proof (cases "Phase (Status nab) = EmptyString")
  case True
  from init_empty_stops[OF True, of r fn f c] assms(1) show ?thesis
    by (auto simp: Reconcile_def reconcileSteps_def Let_def split: option.splits)
next
  case False
  from validateSpec_invalid_err[OF assms(2), of r f c] obtain e
    where "sErr (validateSpec r fn f c nab) = Some e" by auto
  with False assms(1) show ?thesis
    by (simp add: Reconcile_def reconcileSteps_def Let_def init_nonempty)
qed

lemma Reconcile_invalid_no_create:
  assumes "Get_NonAdminBackup f c req = Inr nab" "ValidateBackupSpec fn nab = Some err"
  shows "backups (fst (Reconcile r fn f c req)) = backups c
         \<and> \<not> list_ex is_create (new_calls c (fst (Reconcile r fn f c req)))"
  using Reconcile_invalid_stops[OF assms, of r] init_backups[of r fn f c nab] init_calls[of r fn f c nab]
    validateSpec_backups[of r fn f c nab] validateSpec_calls[of r fn f c nab]
  by (auto simp: new_calls_def)

text \<open>
  C4. For a request whose spec fails validation, the Validate step sets the phase to
  BackingOff and records the condition of type Accepted with status False, reason
  InvalidBackupSpec and the validator's error message as message; it sends a status update
  exactly when that changed the status; when the update is not needed or the store accepts
  it, the step returns the validation error wrapped as terminal, without requeue; and the
  reconcile pass creates no execution object.
\<close>

theorem validateSpec_rejects_invalid:
  assumes "ValidateBackupSpec fn nab = Some err"
  shows "Phase (Status (sNab (validateSpec r fn f c nab))) = NonAdminBackupPhaseBackingOff
    \<and> Phase (Status (sNab (validateSpec r fn f c nab))) = ''BackingOff''
    \<and> has_condition (Conditions (Status (sNab (validateSpec r fn f c nab)))) (acceptedFalse err)
    \<and> (\<exists>cnd. condition_of (Conditions (Status (sNab (validateSpec r fn f c nab)))) ''Accepted''
                = Some cnd
           \<and> cType cnd = ''Accepted'' \<and> cStatus cnd = ''False''
           \<and> cReason cnd = ''InvalidBackupSpec'' \<and> cMessage cnd = Error err)
    \<and> new_calls c (sCluster (validateSpec r fn f c nab)) =
         (if Status (sNab (validateSpec r fn f c nab)) \<noteq> Status nab
          then [StatusUpdateCall (sNab (validateSpec r fn f c nab))] else [])
    \<and> (Status (sNab (validateSpec r fn f c nab)) = Status nab \<longrightarrow>
          validateSpec r fn f c nab =
            \<lparr>sCluster = c, sNab = nab, sRequeue = False, sErr = Some (TerminalError err)\<rparr>)
    \<and> (Status (sNab (validateSpec r fn f c nab)) \<noteq> Status nab
          \<and> updateErr f = None \<and> nabs c (nab_key nab) = Some stored \<longrightarrow>
          nabs (sCluster (validateSpec r fn f c nab)) =
            (nabs c)(nab_key nab \<mapsto> stored\<lparr>Status := Status (sNab (validateSpec r fn f c nab))\<rparr>)
          \<and> sErr (validateSpec r fn f c nab) = Some (TerminalError err))
    \<and> sRequeue (validateSpec r fn f c nab) = False
    \<and> sErr (validateSpec r fn f c nab) \<noteq> None
    \<and> backups (sCluster (validateSpec r fn f c nab)) = backups c
    \<and> (Get_NonAdminBackup f c req = Inr nab \<longrightarrow>
          backups (fst (Reconcile r fn f c req)) = backups c
          \<and> \<not> list_ex is_create (new_calls c (fst (Reconcile r fn f c req))))"
proof -
  let ?st = "(Status nab)\<lparr>Phase := NonAdminBackupPhaseBackingOff,
      Conditions := fst (SetStatusCondition (now f) (Conditions (Status nab)) (acceptedFalse err))\<rparr>"
  note v = validateSpec_invalid[OF assms, of r f c]
  have nab: "sNab (validateSpec r fn f c nab) = nab\<lparr>Status := ?st\<rparr>"
    by (simp add: v Let_def)
  have st: "Status (sNab (validateSpec r fn f c nab)) = ?st"
    by (simp add: nab)
  have 1: "Phase (Status (sNab (validateSpec r fn f c nab))) = NonAdminBackupPhaseBackingOff"
    by (simp add: st)
  have 2: "has_condition (Conditions (Status (sNab (validateSpec r fn f c nab)))) (acceptedFalse err)"
    by (simp add: st SetStatusCondition_has)
  have 3: "new_calls c (sCluster (validateSpec r fn f c nab)) =
         (if Status (sNab (validateSpec r fn f c nab)) \<noteq> Status nab
          then [StatusUpdateCall (sNab (validateSpec r fn f c nab))] else [])"
    unfolding st unfolding nab
    by (simp add: v Let_def new_calls_def Status_Update_calls[OF surjective_pairing])
  have 4: "Status (sNab (validateSpec r fn f c nab)) = Status nab \<longrightarrow>
          validateSpec r fn f c nab =
            \<lparr>sCluster = c, sNab = nab, sRequeue = False, sErr = Some (TerminalError err)\<rparr>"
    unfolding st by (simp add: v Let_def)
  have 5: "Status (sNab (validateSpec r fn f c nab)) \<noteq> Status nab
          \<and> updateErr f = None \<and> nabs c (nab_key nab) = Some stored \<longrightarrow>
          nabs (sCluster (validateSpec r fn f c nab)) =
            (nabs c)(nab_key nab \<mapsto> stored\<lparr>Status := Status (sNab (validateSpec r fn f c nab))\<rparr>)
          \<and> sErr (validateSpec r fn f c nab) = Some (TerminalError err)"
    unfolding st
    by (auto simp: v Let_def Status_Update_ok[where stored=stored])
  have 6: "sRequeue (validateSpec r fn f c nab) = False"
    by (simp add: v Let_def)
  have 7: "sErr (validateSpec r fn f c nab) \<noteq> None"
    by (rule validateSpec_invalid_err[OF assms])
  have 8: "backups (sCluster (validateSpec r fn f c nab)) = backups c"
    by (rule validateSpec_backups)
  have 9: "Get_NonAdminBackup f c req = Inr nab \<longrightarrow>
          backups (fst (Reconcile r fn f c req)) = backups c
          \<and> \<not> list_ex is_create (new_calls c (fst (Reconcile r fn f c req)))"
    using Reconcile_invalid_no_create[OF _ assms] by blast
  have lit: "Phase (Status (sNab (validateSpec r fn f c nab))) = ''BackingOff''"
    using 1 by (simp add: NonAdminBackupPhaseBackingOff_def)
  from 2 obtain cnd where
    cnd: "condition_of (Conditions (Status (sNab (validateSpec r fn f c nab))))
            (cType (acceptedFalse err)) = Some cnd"
      "same_condition cnd (acceptedFalse err)"
    by (auto simp: has_condition_def split: option.splits)
  then have acc: "\<exists>cnd. condition_of (Conditions (Status (sNab (validateSpec r fn f c nab)))) ''Accepted''
                = Some cnd
           \<and> cType cnd = ''Accepted'' \<and> cStatus cnd = ''False''
           \<and> cReason cnd = ''InvalidBackupSpec'' \<and> cMessage cnd = Error err"
    by (auto simp: same_condition_def acceptedFalse_def NonAdminConditionAccepted_def
        ConditionFalse_def)
  from 1 lit 2 acc 3 4 5 6 7 8 9 show ?thesis by blast
qed

theorem validateSpec_rejects_invalid_witness:
  "ValidateBackupSpec sample_function request_r2 = Some error_r2
   \<and> updateErr (no_faults 7) = None
   \<and> nabs cluster_r2 (nab_key request_r2) = Some request_r2
   \<and> Get_NonAdminBackup (no_faults 7) cluster_r2 (''ns1'', ''r2'') = Inr request_r2
   \<and> Status (sNab (validateSpec sample_reconciler sample_function (no_faults 7) cluster_r2 request_r2))
       \<noteq> Status request_r2
   \<and> Phase (Status (sNab (validateSpec sample_reconciler sample_function (no_faults 7) cluster_r2 request_r2)))
       = ''BackingOff''
   \<and> Conditions (Status (sNab (validateSpec sample_reconciler sample_function (no_faults 7)
         cluster_r2 request_r2)))
       = [\<lparr>cType = ''Accepted'', cStatus = ''False'', cObservedGeneration = 0,
           cLastTransitionTime = 7, cReason = ''InvalidBackupSpec'',
           cMessage = ''IncludedNamespaces can not contain other namespaces''\<rparr>]
   \<and> (\<exists>cnd. condition_of (Conditions (Status (sNab (validateSpec sample_reconciler sample_function
            (no_faults 7) cluster_r2 request_r2)))) ''Accepted'' = Some cnd
          \<and> cType cnd = ''Accepted'' \<and> cStatus cnd = ''False''
          \<and> cReason cnd = ''InvalidBackupSpec''
          \<and> cMessage cnd = ''IncludedNamespaces can not contain other namespaces'')
   \<and> map_option Status (nabs (sCluster (validateSpec sample_reconciler sample_function (no_faults 7)
         cluster_r2 request_r2)) (''ns1'', ''r2''))
       = Some \<lparr>Phase = ''BackingOff'',
           Conditions = [\<lparr>cType = ''Accepted'', cStatus = ''False'', cObservedGeneration = 0,
             cLastTransitionTime = 7, cReason = ''InvalidBackupSpec'',
             cMessage = ''IncludedNamespaces can not contain other namespaces''\<rparr>],
           VeleroBackup = None\<rparr>
   \<and> sErr (validateSpec sample_reconciler sample_function (no_faults 7) cluster_r2 request_r2)
       = Some (TerminalError error_r2)
   \<and> backups (fst (Reconcile sample_reconciler sample_function (no_faults 7) cluster_r2 (''ns1'', ''r2'')))
       = backups cluster_r2"
proof -
  have h: "ValidateBackupSpec sample_function request_r2 = Some error_r2"
    by (simp add: sample_function_def request_r2_def spec_invalid_def meta_r2_def error_r2_def)
  have h2: "updateErr (no_faults 7) = None \<and> nabs cluster_r2 (nab_key request_r2) = Some request_r2
     \<and> Get_NonAdminBackup (no_faults 7) cluster_r2 (''ns1'', ''r2'') = Inr request_r2"
    by (simp add: no_faults_def cluster_r2_def nab_key_def request_r2_def meta_r2_def
        Get_NonAdminBackup_def)
  have h3: "Status (sNab (validateSpec sample_reconciler sample_function (no_faults 7) cluster_r2 request_r2))
       \<noteq> Status request_r2"
    by (simp add: model_defs sample_defs request_r2_def spec_invalid_def meta_r2_def cluster_r2_def Let_def)
  have h4: "Conditions (Status (sNab (validateSpec sample_reconciler sample_function (no_faults 7)
         cluster_r2 request_r2)))
       = [\<lparr>cType = ''Accepted'', cStatus = ''False'', cObservedGeneration = 0,
           cLastTransitionTime = 7, cReason = ''InvalidBackupSpec'',
           cMessage = ''IncludedNamespaces can not contain other namespaces''\<rparr>]"
    by (simp add: model_defs sample_defs request_r2_def spec_invalid_def meta_r2_def cluster_r2_def Let_def)
  have h5: "map_option Status (nabs (sCluster (validateSpec sample_reconciler sample_function (no_faults 7)
         cluster_r2 request_r2)) (''ns1'', ''r2''))
       = Some \<lparr>Phase = ''BackingOff'',
           Conditions = [\<lparr>cType = ''Accepted'', cStatus = ''False'', cObservedGeneration = 0,
             cLastTransitionTime = 7, cReason = ''InvalidBackupSpec'',
             cMessage = ''IncludedNamespaces can not contain other namespaces''\<rparr>],
           VeleroBackup = None\<rparr>"
    by (simp add: model_defs sample_defs request_r2_def spec_invalid_def meta_r2_def cluster_r2_def Let_def)
  have m: "Error error_r2 = ''IncludedNamespaces can not contain other namespaces''"
    by (simp add: error_r2_def)
  from validateSpec_rejects_invalid[OF h, of sample_reconciler "no_faults 7" cluster_r2 request_r2
      "(''ns1'', ''r2'')"] h2 h3
  show ?thesis
    using h h4 h5 unfolding m by (simp add: NonAdminBackupPhaseBackingOff_def)
qed

section \<open>The Synchronize step: bookkeeping and status mirror\<close>

lemma VeleroBackup_update_neq: "VeleroBackup s \<noteq> x \<Longrightarrow> s\<lparr>VeleroBackup := x\<rparr> \<noteq> s"
  by (cases s) auto

lemma updateReference_changed:
  "snd (updateNonAdminBackupVeleroBackupReference s vb)
     = (fst (updateNonAdminBackupVeleroBackupReference s vb) \<noteq> s)"
proof (cases "VeleroBackup s")
  case None
  then show ?thesis
    by (simp add: updateNonAdminBackupVeleroBackupReference_def VeleroBackup_update_neq)
next
  case (Some ref)
  have "ref \<noteq> ref\<lparr>vbName := a, vbNamespace := b\<rparr>"
    if "vbName ref \<noteq> a \<or> vbNamespace ref \<noteq> b" for a b
    using that by (cases ref) auto
  then have "s\<lparr>VeleroBackup := Some (ref\<lparr>vbName := a, vbNamespace := b\<rparr>)\<rparr> \<noteq> s"
    if "vbName ref \<noteq> a \<or> vbNamespace ref \<noteq> b" for a b
    using that Some by (intro VeleroBackup_update_neq) simp
  with Some show ?thesis
    by (simp add: updateNonAdminBackupVeleroBackupReference_def)
qed

lemma updateStatus_changed:
  "snd (updateNonAdminBackupVeleroBackupStatus s vb)
     = (fst (updateNonAdminBackupVeleroBackupStatus s vb) \<noteq> s)"
proof (cases "VeleroBackup s")
  case None
  then show ?thesis
    by (simp add: updateNonAdminBackupVeleroBackupStatus_def VeleroBackup_update_neq)
next
  case (Some ref)
  have "ref \<noteq> ref\<lparr>vbStatus := a\<rparr>" if "vbStatus ref \<noteq> a" for a
    using that by (cases ref) auto
  then have "s\<lparr>VeleroBackup := Some (ref\<lparr>vbStatus := a\<rparr>)\<rparr> \<noteq> s" if "vbStatus ref \<noteq> a" for a
    using that Some by (intro VeleroBackup_update_neq) simp
  with Some show ?thesis
    by (simp add: updateNonAdminBackupVeleroBackupStatus_def)
qed

lemma bookkept_complete: "bookkeeping_complete (bookkept t s vb) vb"
  by (auto simp: bookkept_def bookkeeping_complete_def updateNonAdminBackupVeleroBackupReference_def
      SetStatusCondition_has split: option.splits)

lemma bookkept_id: "bookkeeping_complete s vb \<Longrightarrow> bookkept t s vb = s"
  by (auto simp: bookkept_def bookkeeping_complete_def updateNonAdminBackupVeleroBackupReference_def
      SetStatusCondition_noop split: option.splits)

lemma bookkept_eq_iff: "(bookkept t s vb = s) = bookkeeping_complete s vb"
  using bookkept_complete[of t s vb] bookkept_id[of s vb t] by auto

lemma syncStatus_flags:
  "(snd (updateNonAdminPhase (Phase s) NonAdminBackupPhaseCreated)
    \<or> snd (SetStatusCondition t (Conditions s) queuedTrue)
    \<or> snd (updateNonAdminBackupVeleroBackupReference
             (s\<lparr>Phase := fst (updateNonAdminPhase (Phase s) NonAdminBackupPhaseCreated),
                Conditions := fst (SetStatusCondition t (Conditions s) queuedTrue)\<rparr>) vb))
   = (\<not> bookkeeping_complete s vb)"
proof -
  have p: "fst (updateNonAdminPhase (Phase s) NonAdminBackupPhaseCreated) = NonAdminBackupPhaseCreated"
    "snd (updateNonAdminPhase (Phase s) NonAdminBackupPhaseCreated) = (Phase s \<noteq> NonAdminBackupPhaseCreated)"
    by (auto simp: updateNonAdminPhase_def phase_defs)
  show ?thesis
    unfolding p SetStatusCondition_unchanged_iff
    by (auto simp: bookkeeping_complete_def updateNonAdminBackupVeleroBackupReference_def
        split: option.splits)
qed

lemma syncStatus_pending:
  assumes "\<not> bookkeeping_complete (Status nab) vb"
  shows "syncStatus f c nab vb =
     \<lparr>sCluster = fst (Status_Update f c (nab\<lparr>Status := bookkept (now f) (Status nab) vb\<rparr>)),
      sNab = nab\<lparr>Status := bookkept (now f) (Status nab) vb\<rparr>,
      sRequeue = False,
      sErr = snd (Status_Update f c (nab\<lparr>Status := bookkept (now f) (Status nab) vb\<rparr>))\<rparr>"
proof -
  have p: "fst (updateNonAdminPhase (Phase (Status nab)) NonAdminBackupPhaseCreated) = NonAdminBackupPhaseCreated"
    by (auto simp: updateNonAdminPhase_def phase_defs)
  from assms syncStatus_flags[of "Status nab" "now f" vb] show ?thesis
    unfolding syncStatus_def Let_def case_prod_beta bookkept_def p
    by (cases "Status_Update f c (nab\<lparr>Status := fst (updateNonAdminBackupVeleroBackupReference
          ((Status nab)\<lparr>Phase := NonAdminBackupPhaseCreated,
             Conditions := fst (SetStatusCondition (now f) (Conditions (Status nab)) queuedTrue)\<rparr>) vb)\<rparr>)")
       (auto split: option.splits)
qed

lemma syncStatus_complete:
  assumes "bookkeeping_complete (Status nab) vb"
  shows "syncStatus f c nab vb =
     (let st = fst (updateNonAdminBackupVeleroBackupStatus (Status nab) vb) in
      if st \<noteq> Status nab then
        \<lparr>sCluster = fst (Status_Update f c (nab\<lparr>Status := st\<rparr>)),
         sNab = nab\<lparr>Status := st\<rparr>, sRequeue = False,
         sErr = snd (Status_Update f c (nab\<lparr>Status := st\<rparr>))\<rparr>
      else \<lparr>sCluster = c, sNab = nab, sRequeue = False, sErr = None\<rparr>)"
proof -
  have p: "fst (updateNonAdminPhase (Phase (Status nab)) NonAdminBackupPhaseCreated) = NonAdminBackupPhaseCreated"
    by (auto simp: updateNonAdminPhase_def phase_defs)
  have b: "fst (updateNonAdminBackupVeleroBackupReference
          ((Status nab)\<lparr>Phase := NonAdminBackupPhaseCreated,
             Conditions := fst (SetStatusCondition (now f) (Conditions (Status nab)) queuedTrue)\<rparr>) vb)
        = Status nab"
    using bookkept_id[OF assms, of "now f"] by (simp add: bookkept_def)
  have same: "nab\<lparr>Status := fst (updateNonAdminBackupVeleroBackupStatus (Status nab) vb)\<rparr> = nab"
    if "fst (updateNonAdminBackupVeleroBackupStatus (Status nab) vb) = Status nab"
    using that by simp
  from assms syncStatus_flags[of "Status nab" "now f" vb] show ?thesis
    unfolding syncStatus_def Let_def case_prod_beta p b updateStatus_changed
    using same
    by (cases "Status_Update f c (nab\<lparr>Status := fst (updateNonAdminBackupVeleroBackupStatus (Status nab) vb)\<rparr>)")
       (auto split: option.splits)
qed

lemma sync_found:
  assumes "GenerateVeleroBackupName fn (Namespace (ObjectMeta nab)) (Name (ObjectMeta nab)) = name"
    "name \<noteq> EmptyString" "Get_Backup f c (OADPNamespace r, name) = Inr vb"
  shows "syncVeleroBackupWithNonAdminBackup r fn f c nab = syncStatus f c nab vb"
  using assms by (simp add: syncVeleroBackupWithNonAdminBackup_def getOrCreateVeleroBackup_def)

lemma newVeleroBackup_key:
  "backup_key (newVeleroBackup r fn name nab) = (OADPNamespace r, name)"
  by (simp add: newVeleroBackup_def backup_key_def)


section \<open>The Synchronize step when the execution object is absent\<close>




section \<open>The status mirror\<close>



lemma syncStatus_requeue: "sRequeue (syncStatus f c nab vb) = False"
  by (auto simp: syncStatus_def Let_def split: prod.splits option.splits)

lemma sync_requeue: "sRequeue (syncVeleroBackupWithNonAdminBackup r fn f c nab) = False"
  by (auto simp: syncVeleroBackupWithNonAdminBackup_def Let_def syncStatus_requeue
      split: prod.splits sum.splits)





section \<open>Requeue after a persisted status change\<close>

lemma init_requeue:
  "sRequeue (init r fn f c nab) =
     (new_calls c (sCluster (init r fn f c nab)) \<noteq> [] \<and> sErr (init r fn f c nab) = None)"
  by (auto simp: init_def Let_def new_calls_def split: prod.splits option.splits
      dest: Status_Update_calls)

lemma validateSpec_requeue:
  "sRequeue (validateSpec r fn f c nab) =
     (new_calls c (sCluster (validateSpec r fn f c nab)) \<noteq> []
      \<and> sErr (validateSpec r fn f c nab) = None)"
  by (auto simp: validateSpec_def Let_def new_calls_def split: prod.splits option.splits
      dest: Status_Update_calls)

lemma Reconcile_init_requeue:
  assumes "Get_NonAdminBackup f c req = Inr nab" "sRequeue (init r fn f c nab)"
  shows "Reconcile r fn f c req = (sCluster (init r fn f c nab), \<lparr>Requeue = True\<rparr>, None)"
  using assms init_requeue[of r fn f c nab]
  by (simp add: Reconcile_def reconcileSteps_def Let_def)

lemma Reconcile_validate_requeue:
  assumes "Get_NonAdminBackup f c req = Inr nab" "Phase (Status nab) \<noteq> EmptyString"
    "sRequeue (validateSpec r fn f c nab)"
  shows "Reconcile r fn f c req = (sCluster (validateSpec r fn f c nab), \<lparr>Requeue = True\<rparr>, None)"
  using assms validateSpec_requeue[of r fn f c nab]
  by (simp add: Reconcile_def reconcileSteps_def Let_def init_nonempty)

text \<open>
  C7, as stated, fails for the Synchronize step: on the accepted request r1 it creates the
  execution object, persists phase, condition and reference, and returns without error
  and without requeue, and so does the whole pass.
\<close>

theorem sync_persists_without_requeue_counterexample:
  "nabs cluster_r1_accepted (''ns1'', ''r1'') = Some request_r1_accepted
   \<and> nabs (sCluster (syncVeleroBackupWithNonAdminBackup sample_reconciler sample_function
         (no_faults 7) cluster_r1_accepted request_r1_accepted)) (''ns1'', ''r1'')
       = Some (request_r1_mirrored None)
   \<and> new_calls cluster_r1_accepted (sCluster (syncVeleroBackupWithNonAdminBackup sample_reconciler
         sample_function (no_faults 7) cluster_r1_accepted request_r1_accepted))
       = [CreateCall backup_r1, StatusUpdateCall (request_r1_mirrored None)]
   \<and> sErr (syncVeleroBackupWithNonAdminBackup sample_reconciler sample_function
         (no_faults 7) cluster_r1_accepted request_r1_accepted) = None
   \<and> sRequeue (syncVeleroBackupWithNonAdminBackup sample_reconciler sample_function
         (no_faults 7) cluster_r1_accepted request_r1_accepted) = False
   \<and> snd (Reconcile sample_reconciler sample_function (no_faults 7) cluster_r1_accepted (''ns1'', ''r1''))
       = (\<lparr>Requeue = False\<rparr>, None)"
  by (simp add: model_defs sample_defs r1_defs new_calls_def Let_def)

text \<open>
  C7, amended. Whenever the Initialize step or the Validate step sends a status update and
  returns without error, it signals requeue, and the pass then stops there with a requeue
  result, the later steps not being run. The Synchronize step never signals requeue.
\<close>

theorem requeue_after_persisted_status:
  "(new_calls c (sCluster (init r fn f c nab)) \<noteq> [] \<and> sErr (init r fn f c nab) = None
      \<longrightarrow> sRequeue (init r fn f c nab))
   \<and> (new_calls c (sCluster (validateSpec r fn f c nab)) \<noteq> []
        \<and> sErr (validateSpec r fn f c nab) = None
      \<longrightarrow> sRequeue (validateSpec r fn f c nab))
   \<and> sRequeue (syncVeleroBackupWithNonAdminBackup r fn f c nab) = False
   \<and> (Get_NonAdminBackup f c req = Inr nab \<and> sRequeue (init r fn f c nab)
      \<longrightarrow> Reconcile r fn f c req = (sCluster (init r fn f c nab), \<lparr>Requeue = True\<rparr>, None))
   \<and> (Get_NonAdminBackup f c req = Inr nab \<and> Phase (Status nab) \<noteq> EmptyString
        \<and> sRequeue (validateSpec r fn f c nab)
      \<longrightarrow> Reconcile r fn f c req =
            (sCluster (validateSpec r fn f c nab), \<lparr>Requeue = True\<rparr>, None))"
  using init_requeue[of r fn f c nab] validateSpec_requeue[of r fn f c nab]
    sync_requeue[of r fn f c nab] Reconcile_init_requeue[of f c req nab r fn]
    Reconcile_validate_requeue[of f c req nab r fn]
  by blast

theorem requeue_after_persisted_status_witness:
  "new_calls cluster_r1 (sCluster (init sample_reconciler sample_function (no_faults 7) cluster_r1 request_r1))
       \<noteq> []
   \<and> sErr (init sample_reconciler sample_function (no_faults 7) cluster_r1 request_r1) = None
   \<and> sRequeue (init sample_reconciler sample_function (no_faults 7) cluster_r1 request_r1)
   \<and> new_calls cluster_r1_new (sCluster (validateSpec sample_reconciler sample_function (no_faults 7)
         cluster_r1_new request_r1_new)) \<noteq> []
   \<and> sErr (validateSpec sample_reconciler sample_function (no_faults 7) cluster_r1_new request_r1_new)
       = None
   \<and> sRequeue (validateSpec sample_reconciler sample_function (no_faults 7) cluster_r1_new request_r1_new)
   \<and> Get_NonAdminBackup (no_faults 7) cluster_r1 (''ns1'', ''r1'') = Inr request_r1
   \<and> fst (snd (Reconcile sample_reconciler sample_function (no_faults 7) cluster_r1 (''ns1'', ''r1'')))
       = \<lparr>Requeue = True\<rparr>
   \<and> Get_NonAdminBackup (no_faults 7) cluster_r1_new (''ns1'', ''r1'') = Inr request_r1_new
   \<and> Phase (Status request_r1_new) \<noteq> EmptyString
   \<and> fst (snd (Reconcile sample_reconciler sample_function (no_faults 7) cluster_r1_new (''ns1'', ''r1'')))
       = \<lparr>Requeue = True\<rparr>"
proof -
  have h1: "new_calls cluster_r1 (sCluster (init sample_reconciler sample_function (no_faults 7)
         cluster_r1 request_r1)) \<noteq> []
     \<and> sErr (init sample_reconciler sample_function (no_faults 7) cluster_r1 request_r1) = None"
    by (simp add: model_defs sample_defs new_calls_def Let_def)
  have h2: "new_calls cluster_r1_new (sCluster (validateSpec sample_reconciler sample_function
         (no_faults 7) cluster_r1_new request_r1_new)) \<noteq> []
     \<and> sErr (validateSpec sample_reconciler sample_function (no_faults 7) cluster_r1_new
           request_r1_new) = None"
    by (simp add: model_defs sample_defs request_r1_new_def cluster_r1_new_def new_calls_def Let_def)
  have h3: "Get_NonAdminBackup (no_faults 7) cluster_r1 (''ns1'', ''r1'') = Inr request_r1
     \<and> Get_NonAdminBackup (no_faults 7) cluster_r1_new (''ns1'', ''r1'') = Inr request_r1_new
     \<and> Phase (Status request_r1_new) \<noteq> EmptyString"
    by (simp add: model_defs sample_defs request_r1_new_def cluster_r1_new_def)
  note t1 = requeue_after_persisted_status[of cluster_r1 sample_reconciler sample_function
      "no_faults 7" request_r1 "(''ns1'', ''r1'')"]
  note t2 = requeue_after_persisted_status[of cluster_r1_new sample_reconciler sample_function
      "no_faults 7" request_r1_new "(''ns1'', ''r1'')"]
  from t1 h1 h3 have a: "sRequeue (init sample_reconciler sample_function (no_faults 7) cluster_r1 request_r1)"
    and b: "fst (snd (Reconcile sample_reconciler sample_function (no_faults 7) cluster_r1 (''ns1'', ''r1'')))
       = \<lparr>Requeue = True\<rparr>"
    by simp_all
  from t2 h2 h3 have c: "sRequeue (validateSpec sample_reconciler sample_function (no_faults 7)
       cluster_r1_new request_r1_new)"
    and d: "fst (snd (Reconcile sample_reconciler sample_function (no_faults 7) cluster_r1_new (''ns1'', ''r1'')))
       = \<lparr>Requeue = True\<rparr>"
    by simp_all
  from h1 h2 h3 a b c d show ?thesis by simp
qed

section \<open>Running the Synchronize step twice\<close>

lemma updateStatus_keeps_bookkeeping:
  "bookkeeping_complete s vb \<Longrightarrow>
   bookkeeping_complete (fst (updateNonAdminBackupVeleroBackupStatus s vb)) vb
   \<and> snapshot_current (fst (updateNonAdminBackupVeleroBackupStatus s vb)) vb"
  by (auto simp: bookkeeping_complete_def snapshot_current_def
      updateNonAdminBackupVeleroBackupStatus_def split: option.splits)

lemma updateStatus_current:
  "snapshot_current s vb \<Longrightarrow> updateNonAdminBackupVeleroBackupStatus s vb = (s, False)"
  by (auto simp: snapshot_current_def updateNonAdminBackupVeleroBackupStatus_def split: option.splits)

lemma Status_Update_reload:
  assumes "nabs c (nab_key nab) = Some nab" "snd (Status_Update f c (nab\<lparr>Status := s\<rparr>)) = None"
  shows "nabs (fst (Status_Update f c (nab\<lparr>Status := s\<rparr>))) (nab_key nab) = Some (nab\<lparr>Status := s\<rparr>)"
  using assms by (auto simp: Status_Update_def Let_def split: option.splits)

lemma syncStatus_settles:
  assumes "nabs c (nab_key nab) = Some nab" "sErr (syncStatus f c nab vb) = None"
  shows "nabs (sCluster (syncStatus f c nab vb)) (nab_key nab) = Some (sNab (syncStatus f c nab vb))
    \<and> nab_key (sNab (syncStatus f c nab vb)) = nab_key nab
    \<and> ObjectMeta (sNab (syncStatus f c nab vb)) = ObjectMeta nab
    \<and> bookkeeping_complete (Status (sNab (syncStatus f c nab vb))) vb
    \<and> (bookkeeping_complete (Status nab) vb \<longrightarrow>
          snapshot_current (Status (sNab (syncStatus f c nab vb))) vb)"
proof (cases "bookkeeping_complete (Status nab) vb")
  case False
  from assms(2) have "snd (Status_Update f c (nab\<lparr>Status := bookkept (now f) (Status nab) vb\<rparr>)) = None"
    by (simp add: syncStatus_pending[OF False])
  from Status_Update_reload[OF assms(1) this] False show ?thesis
    by (simp add: syncStatus_pending[OF False] bookkept_complete)
next
  case True
  let ?st = "fst (updateNonAdminBackupVeleroBackupStatus (Status nab) vb)"
  note k = updateStatus_keeps_bookkeeping[OF True]
  show ?thesis
  proof (cases "?st = Status nab")
    case same: True
    with k assms(1) True show ?thesis
      by (simp add: syncStatus_complete[OF True] Let_def)
  next
    case diff: False
    with assms(2) have "snd (Status_Update f c (nab\<lparr>Status := ?st\<rparr>)) = None"
      by (simp add: syncStatus_complete[OF True] Let_def)
    from Status_Update_reload[OF assms(1) this] diff k show ?thesis
      by (simp add: syncStatus_complete[OF True] Let_def)
  qed
qed

lemma syncStatus_steady:
  assumes "bookkeeping_complete (Status nab) vb" "snapshot_current (Status nab) vb"
  shows "syncStatus f c nab vb = \<lparr>sCluster = c, sNab = nab, sRequeue = False, sErr = None\<rparr>"
  by (simp add: syncStatus_complete[OF assms(1)] updateStatus_current[OF assms(2)])

lemma syncStatus_complete_calls:
  assumes "bookkeeping_complete (Status nab) vb"
  shows "new_calls c (sCluster (syncStatus f c nab vb)) =
     (if snapshot_current (Status nab) vb then []
      else [StatusUpdateCall
              (nab\<lparr>Status := fst (updateNonAdminBackupVeleroBackupStatus (Status nab) vb)\<rparr>)])"
proof (cases "snapshot_current (Status nab) vb")
  case True
  then show ?thesis
    by (simp add: syncStatus_steady[OF assms True] new_calls_def)
next
  case False
  then have "snd (updateNonAdminBackupVeleroBackupStatus (Status nab) vb)"
    by (auto simp: snapshot_current_def updateNonAdminBackupVeleroBackupStatus_def split: option.splits)
  then have "fst (updateNonAdminBackupVeleroBackupStatus (Status nab) vb) \<noteq> Status nab"
    by (simp add: updateStatus_changed)
  with False show ?thesis
    by (simp add: syncStatus_complete[OF assms] Let_def new_calls_def
        Status_Update_calls[OF surjective_pairing])
qed

text \<open>What a first run that returns without error leaves behind.\<close>

lemma sync_settles:
  assumes "nabs c (nab_key nab) = Some nab"
    and "sErr (syncVeleroBackupWithNonAdminBackup r fn f c nab) = None"
    and "GenerateVeleroBackupName fn (Namespace (ObjectMeta nab)) (Name (ObjectMeta nab)) = name"
  shows "\<exists>vb. backups (sCluster (syncVeleroBackupWithNonAdminBackup r fn f c nab)) (OADPNamespace r, name)
            = Some vb
     \<and> name \<noteq> EmptyString
     \<and> nabs (sCluster (syncVeleroBackupWithNonAdminBackup r fn f c nab)) (nab_key nab)
         = Some (sNab (syncVeleroBackupWithNonAdminBackup r fn f c nab))
     \<and> nab_key (sNab (syncVeleroBackupWithNonAdminBackup r fn f c nab)) = nab_key nab
     \<and> ObjectMeta (sNab (syncVeleroBackupWithNonAdminBackup r fn f c nab)) = ObjectMeta nab
     \<and> bookkeeping_complete (Status (sNab (syncVeleroBackupWithNonAdminBackup r fn f c nab))) vb
     \<and> (\<forall>vb0. Get_Backup f c (OADPNamespace r, name) = Inr vb0
            \<and> bookkeeping_complete (Status nab) vb0 \<longrightarrow>
          snapshot_current (Status (sNab (syncVeleroBackupWithNonAdminBackup r fn f c nab))) vb)"
proof -
  let ?res = "syncVeleroBackupWithNonAdminBackup r fn f c nab"
  from assms(2,3) have ne: "name \<noteq> EmptyString"
    by (auto simp: syncVeleroBackupWithNonAdminBackup_def)
  obtain c' g where g: "getOrCreateVeleroBackup r fn f c name nab = (c', g)"
    by (cases "getOrCreateVeleroBackup r fn f c name nab")
  with assms(2,3) ne obtain vb where vb: "g = Inr vb"
    by (cases g) (auto simp: syncVeleroBackupWithNonAdminBackup_def)
  with g assms(3) ne have res: "?res = syncStatus f c' nab vb"
    by (simp add: syncVeleroBackupWithNonAdminBackup_def)
  from getOrCreate_nabs[OF g] assms(1) have n': "nabs c' (nab_key nab) = Some nab" by simp
  from assms(2) res have e: "sErr (syncStatus f c' nab vb) = None" by simp
  note s = syncStatus_settles[OF n' e]
  have b: "backups c' (OADPNamespace r, name) = Some vb
     \<and> (\<forall>vb0. Get_Backup f c (OADPNamespace r, name) = Inr vb0 \<longrightarrow> vb0 = vb)"
    using g vb
    by (auto simp: getOrCreateVeleroBackup_def Get_Backup_def Create_Backup_def Let_def
        newVeleroBackup_key IsNotFound_def split: sum.splits option.splits if_splits)
  have "backups (sCluster ?res) = backups c'"
    by (simp add: res syncStatus_backups)
  with b s ne show ?thesis
    unfolding res by auto
qed

text \<open>
  C2, as stated, fails right after the run that created the execution object: that run
  persists phase, condition and reference and exits; the next run, with nothing changed in
  between, finds the snapshot absent, copies the live status and sends a status update.
\<close>

theorem sync_second_run_writes_counterexample:
  "sErr (syncVeleroBackupWithNonAdminBackup sample_reconciler sample_function (no_faults 7)
          cluster_r1_accepted request_r1_accepted) = None
   \<and> nabs (sCluster (syncVeleroBackupWithNonAdminBackup sample_reconciler sample_function
         (no_faults 7) cluster_r1_accepted request_r1_accepted)) (''ns1'', ''r1'')
       = Some (request_r1_mirrored None)
   \<and> snd (updateNonAdminBackupVeleroBackupStatus (Status (request_r1_mirrored None)) backup_r1) = True
   \<and> new_calls
        (sCluster (syncVeleroBackupWithNonAdminBackup sample_reconciler sample_function
           (no_faults 7) cluster_r1_accepted request_r1_accepted))
        (sCluster (syncVeleroBackupWithNonAdminBackup sample_reconciler sample_function (no_faults 8)
           (sCluster (syncVeleroBackupWithNonAdminBackup sample_reconciler sample_function
              (no_faults 7) cluster_r1_accepted request_r1_accepted))
           (request_r1_mirrored None)))
       = [StatusUpdateCall (request_r1_mirrored (Some BackupStatus_zero))]"
  by (simp add: model_defs sample_defs r1_defs new_calls_def Let_def)

text \<open>
  C2, amended. Let the Synchronize step run on a stored request and return without error,
  and let it run again on the request as reloaded from the store, nothing else having
  changed. The second run performs no create, and its phase, Queued-condition and
  reference comparisons report no change. Its status-snapshot comparison reports no change
  as well, so that it writes nothing, whenever the stored snapshot equals the live status,
  which is the case when the first run found the execution object with the bookkeeping
  already complete; otherwise the second run sends exactly one status update, carrying the
  snapshot.
\<close>

theorem sync_second_run:
  assumes "nabs c (nab_key nab) = Some nab"
    and "sErr (syncVeleroBackupWithNonAdminBackup r fn f1 c nab) = None"
    and "nabs (sCluster (syncVeleroBackupWithNonAdminBackup r fn f1 c nab)) (nab_key nab) = Some nab1"
    and "getBackupErr f2 = None"
  shows "\<not> list_ex is_create
            (new_calls (sCluster (syncVeleroBackupWithNonAdminBackup r fn f1 c nab))
               (sCluster (syncVeleroBackupWithNonAdminBackup r fn f2
                  (sCluster (syncVeleroBackupWithNonAdminBackup r fn f1 c nab)) nab1)))
    \<and> backups (sCluster (syncVeleroBackupWithNonAdminBackup r fn f2
                  (sCluster (syncVeleroBackupWithNonAdminBackup r fn f1 c nab)) nab1))
        = backups (sCluster (syncVeleroBackupWithNonAdminBackup r fn f1 c nab))
    \<and> (\<exists>vb. backups (sCluster (syncVeleroBackupWithNonAdminBackup r fn f1 c nab))
               (OADPNamespace r,
                GenerateVeleroBackupName fn (Namespace (ObjectMeta nab)) (Name (ObjectMeta nab)))
             = Some vb
         \<and> snd (updateNonAdminPhase (Phase (Status nab1)) NonAdminBackupPhaseCreated) = False
         \<and> snd (SetStatusCondition (now f2) (Conditions (Status nab1)) queuedTrue) = False
         \<and> snd (updateNonAdminBackupVeleroBackupReference (Status nab1) vb) = False
         \<and> new_calls (sCluster (syncVeleroBackupWithNonAdminBackup r fn f1 c nab))
               (sCluster (syncVeleroBackupWithNonAdminBackup r fn f2
                  (sCluster (syncVeleroBackupWithNonAdminBackup r fn f1 c nab)) nab1))
             = (if snapshot_current (Status nab1) vb then []
                else [StatusUpdateCall
                        (nab1\<lparr>Status := fst (updateNonAdminBackupVeleroBackupStatus (Status nab1) vb)\<rparr>)])
         \<and> (snapshot_current (Status nab1) vb \<longrightarrow>
               syncVeleroBackupWithNonAdminBackup r fn f2
                  (sCluster (syncVeleroBackupWithNonAdminBackup r fn f1 c nab)) nab1
               = \<lparr>sCluster = sCluster (syncVeleroBackupWithNonAdminBackup r fn f1 c nab),
                  sNab = nab1, sRequeue = False, sErr = None\<rparr>)
         \<and> (\<forall>vb0. Get_Backup f1 c
                      (OADPNamespace r,
                       GenerateVeleroBackupName fn (Namespace (ObjectMeta nab)) (Name (ObjectMeta nab)))
                    = Inr vb0
                  \<and> bookkeeping_complete (Status nab) vb0 \<longrightarrow>
               snapshot_current (Status nab1) vb))"
proof -
  let ?name = "GenerateVeleroBackupName fn (Namespace (ObjectMeta nab)) (Name (ObjectMeta nab))"
  let ?res1 = "syncVeleroBackupWithNonAdminBackup r fn f1 c nab"
  let ?c1 = "sCluster ?res1"
  let ?res2 = "syncVeleroBackupWithNonAdminBackup r fn f2 ?c1 nab1"
  from sync_settles[OF assms(1,2) refl] obtain vb where
    vb: "backups ?c1 (OADPNamespace r, ?name) = Some vb" and ne: "?name \<noteq> EmptyString"
    and n1: "nabs ?c1 (nab_key nab) = Some (sNab ?res1)"
    and om: "ObjectMeta (sNab ?res1) = ObjectMeta nab"
    and bc: "bookkeeping_complete (Status (sNab ?res1)) vb"
    and sc: "\<forall>vb0. Get_Backup f1 c (OADPNamespace r, ?name) = Inr vb0
            \<and> bookkeeping_complete (Status nab) vb0 \<longrightarrow> snapshot_current (Status (sNab ?res1)) vb"
    by blast
  from n1 assms(3) have nab1: "nab1 = sNab ?res1" by simp
  have name1: "GenerateVeleroBackupName fn (Namespace (ObjectMeta nab1)) (Name (ObjectMeta nab1)) = ?name"
    by (simp add: nab1 om)
  have get: "Get_Backup f2 ?c1 (OADPNamespace r, ?name) = Inr vb"
    using assms(4) vb by (simp add: Get_Backup_def)
  have res2: "?res2 = syncStatus f2 ?c1 nab1 vb"
    by (rule sync_found[OF name1 ne get])
  have bc1: "bookkeeping_complete (Status nab1) vb"
    using bc by (simp add: nab1)
  note calls = syncStatus_complete_calls[OF bc1, of ?c1 f2]
  have fl: "snd (updateNonAdminPhase (Phase (Status nab1)) NonAdminBackupPhaseCreated) = False
         \<and> snd (SetStatusCondition (now f2) (Conditions (Status nab1)) queuedTrue) = False
         \<and> snd (updateNonAdminBackupVeleroBackupReference (Status nab1) vb) = False"
    using bc1
    by (auto simp: bookkeeping_complete_def updateNonAdminPhase_def phase_defs
        SetStatusCondition_noop updateNonAdminBackupVeleroBackupReference_def split: option.splits)
  have nc: "\<not> list_ex is_create (new_calls ?c1 (sCluster ?res2))"
    unfolding res2 calls by simp
  have bk: "backups (sCluster ?res2) = backups ?c1"
    unfolding res2 by (rule syncStatus_backups)
  have st: "snapshot_current (Status nab1) vb \<longrightarrow>
      ?res2 = \<lparr>sCluster = ?c1, sNab = nab1, sRequeue = False, sErr = None\<rparr>"
    unfolding res2 using syncStatus_steady[OF bc1] by blast
  from sc have sc1: "\<forall>vb0. Get_Backup f1 c (OADPNamespace r, ?name) = Inr vb0
            \<and> bookkeeping_complete (Status nab) vb0 \<longrightarrow> snapshot_current (Status nab1) vb"
    by (simp add: nab1)
  from calls have calls2: "new_calls ?c1 (sCluster ?res2)
       = (if snapshot_current (Status nab1) vb then []
          else [StatusUpdateCall
                  (nab1\<lparr>Status := fst (updateNonAdminBackupVeleroBackupStatus (Status nab1) vb)\<rparr>)])"
    unfolding res2 .
  from nc bk vb fl calls2 st sc1 show ?thesis by blast
qed

theorem sync_second_run_witness:
  "nabs (cluster_r1_running (Some status_inprogress) status_completed)
       (nab_key (request_r1_mirrored (Some status_inprogress)))
     = Some (request_r1_mirrored (Some status_inprogress))
   \<and> sErr (syncVeleroBackupWithNonAdminBackup sample_reconciler sample_function (no_faults 8)
        (cluster_r1_running (Some status_inprogress) status_completed)
        (request_r1_mirrored (Some status_inprogress))) = None
   \<and> nabs (sCluster (syncVeleroBackupWithNonAdminBackup sample_reconciler sample_function (no_faults 8)
        (cluster_r1_running (Some status_inprogress) status_completed)
        (request_r1_mirrored (Some status_inprogress))))
       (nab_key (request_r1_mirrored (Some status_inprogress)))
     = Some (request_r1_mirrored (Some status_completed))
   \<and> getBackupErr (no_faults 9) = None
   \<and> Get_Backup (no_faults 8) (cluster_r1_running (Some status_inprogress) status_completed)
        (''openshift-adp'', ''exec-r1-ns1'') = Inr (backup_r1\<lparr>bStatus := status_completed\<rparr>)
   \<and> bookkeeping_complete (Status (request_r1_mirrored (Some status_inprogress)))
        (backup_r1\<lparr>bStatus := status_completed\<rparr>)
   \<and> snapshot_current (Status (request_r1_mirrored (Some status_completed)))
        (backup_r1\<lparr>bStatus := status_completed\<rparr>)
   \<and> syncVeleroBackupWithNonAdminBackup sample_reconciler sample_function (no_faults 9)
        (sCluster (syncVeleroBackupWithNonAdminBackup sample_reconciler sample_function (no_faults 8)
           (cluster_r1_running (Some status_inprogress) status_completed)
           (request_r1_mirrored (Some status_inprogress))))
        (request_r1_mirrored (Some status_completed))
     = \<lparr>sCluster = sCluster (syncVeleroBackupWithNonAdminBackup sample_reconciler sample_function
           (no_faults 8) (cluster_r1_running (Some status_inprogress) status_completed)
           (request_r1_mirrored (Some status_inprogress))),
        sNab = request_r1_mirrored (Some status_completed), sRequeue = False, sErr = None\<rparr>"
proof -
  let ?c = "cluster_r1_running (Some status_inprogress) status_completed"
  let ?nab = "request_r1_mirrored (Some status_inprogress)"
  let ?nab1 = "request_r1_mirrored (Some status_completed)"
  let ?live = "backup_r1\<lparr>bStatus := status_completed\<rparr>"
  let ?res1 = "syncVeleroBackupWithNonAdminBackup sample_reconciler sample_function (no_faults 8) ?c ?nab"
  have h1: "nabs ?c (nab_key ?nab) = Some ?nab"
    by (simp add: model_defs sample_defs r1_defs)
  have h2: "sErr ?res1 = None"
    by (simp add: model_defs sample_defs r1_defs Let_def)
  have h3: "nabs (sCluster ?res1) (nab_key ?nab) = Some ?nab1"
    by (simp add: model_defs sample_defs r1_defs Let_def)
  have h4: "getBackupErr (no_faults 9) = None"
    by (simp add: no_faults_def)
  have k: "(OADPNamespace sample_reconciler,
            GenerateVeleroBackupName sample_function (Namespace (ObjectMeta ?nab)) (Name (ObjectMeta ?nab)))
           = (''openshift-adp'', ''exec-r1-ns1'')"
    by (simp add: sample_defs r1_defs)
  have b1: "backups (sCluster ?res1) (''openshift-adp'', ''exec-r1-ns1'') = Some ?live"
    by (simp add: model_defs sample_defs r1_defs Let_def)
  have g: "Get_Backup (no_faults 8) ?c (''openshift-adp'', ''exec-r1-ns1'') = Inr ?live"
    by (simp add: model_defs sample_defs r1_defs)
  have bc: "bookkeeping_complete (Status ?nab) ?live"
    by (simp add: bookkeeping_complete_def has_condition_def condition_of_def same_condition_def
        model_defs sample_defs r1_defs)
  from sync_second_run[OF h1 h2 h3 h4] obtain vb where
    vb: "backups (sCluster ?res1) (OADPNamespace sample_reconciler,
            GenerateVeleroBackupName sample_function (Namespace (ObjectMeta ?nab)) (Name (ObjectMeta ?nab)))
          = Some vb"
    and st: "snapshot_current (Status ?nab1) vb \<longrightarrow>
       syncVeleroBackupWithNonAdminBackup sample_reconciler sample_function (no_faults 9)
          (sCluster ?res1) ?nab1
       = \<lparr>sCluster = sCluster ?res1, sNab = ?nab1, sRequeue = False, sErr = None\<rparr>"
    and sc: "\<forall>vb0. Get_Backup (no_faults 8) ?c (OADPNamespace sample_reconciler,
            GenerateVeleroBackupName sample_function (Namespace (ObjectMeta ?nab)) (Name (ObjectMeta ?nab)))
               = Inr vb0
             \<and> bookkeeping_complete (Status ?nab) vb0 \<longrightarrow> snapshot_current (Status ?nab1) vb"
    by blast
  from vb b1 have vbl: "vb = ?live" unfolding k by simp
  from sc g bc have cur: "snapshot_current (Status ?nab1) ?live"
    unfolding k vbl by blast
  with st have "syncVeleroBackupWithNonAdminBackup sample_reconciler sample_function (no_faults 9)
          (sCluster ?res1) ?nab1
       = \<lparr>sCluster = sCluster ?res1, sNab = ?nab1, sRequeue = False, sErr = None\<rparr>"
    unfolding vbl by blast
  with h1 h2 h3 h4 g bc cur show ?thesis by blast
qed

section \<open>Phase transitions over reconcile passes\<close>

text \<open>
  C3, as stated, fails across a correction of the spec: request r2 is rejected (phase
  BackingOff), the tenant corrects its spec, which changes the generation and passes the
  event filter, and the next two passes accept it and move the phase from BackingOff to
  Created.
\<close>

theorem phase_leaves_BackingOff_counterexample:
  "stored_phase cluster_r2_created (''ns1'', ''r2'') = ''''
   \<and> stored_phase (pass_r2 cluster_r2_created) (''ns1'', ''r2'') = ''New''
   \<and> stored_phase cluster_r2_rejected (''ns1'', ''r2'') = ''BackingOff''
   \<and> stored_phase cluster_r2_corrected (''ns1'', ''r2'') = ''BackingOff''
   \<and> stored_phase cluster_r2_reaccepted (''ns1'', ''r2'') = ''BackingOff''
   \<and> stored_phase cluster_r2_synced (''ns1'', ''r2'') = ''Created''
   \<and> \<not> phase_forward ''BackingOff'' ''Created''
   \<and> phases_of (''ns1'', ''r2'')
         (run sample_reconciler sample_function history_r2 cluster_r2_created (''ns1'', ''r2''))
       = ['''', ''New'', ''BackingOff'', ''BackingOff'', ''BackingOff'', ''Created'']
   \<and> \<not> successively (forward_step (''ns1'', ''r2''))
         (run sample_reconciler sample_function history_r2 cluster_r2_created (''ns1'', ''r2''))"
  by (simp add: stored_phase_def phase_forward_def forward_step_def model_defs sample_defs
      r2_defs history_defs Let_def)

lemma writes_phase_refl: "writes_phase c c k p"
  by (simp add: writes_phase_def)

lemma writes_phase_nabs: "nabs c' = nabs c \<Longrightarrow> writes_phase c c' k p"
  by (simp add: writes_phase_def)

lemma Status_Update_writes:
  "writes_phase c (fst (Status_Update f c nab)) (nab_key nab) (Phase (Status nab))"
  by (auto simp: Status_Update_def writes_phase_def Let_def split: option.splits)

lemma init_writes:
  "Phase (Status nab) = EmptyString \<Longrightarrow>
   writes_phase c (sCluster (init r fn f c nab)) (nab_key nab) NonAdminBackupPhaseNew"
  using Status_Update_writes[of c f "nab\<lparr>Status := (Status nab)\<lparr>Phase := NonAdminBackupPhaseNew\<rparr>\<rparr>"]
  by (auto simp: init_def Let_def updateNonAdminPhase_def phase_defs writes_phase_refl
      split: prod.splits option.splits)

lemma validateSpec_writes:
  "writes_phase c (sCluster (validateSpec r fn f c nab)) (nab_key nab)
     (if ValidateBackupSpec fn nab = None then Phase (Status nab) else NonAdminBackupPhaseBackingOff)"
proof (cases "ValidateBackupSpec fn nab")
  case None
  let ?n = "nab\<lparr>Status := (Status nab)\<lparr>Conditions :=
      fst (SetStatusCondition (now f) (Conditions (Status nab)) acceptedTrue)\<rparr>\<rparr>"
  from None Status_Update_writes[of c f ?n] show ?thesis
    by (auto simp: validateSpec_def Let_def case_prod_beta writes_phase_refl split: option.splits)
next
  case (Some err)
  let ?n = "nab\<lparr>Status := (Status nab)\<lparr>Phase := NonAdminBackupPhaseBackingOff, Conditions :=
      fst (SetStatusCondition (now f) (Conditions (Status nab)) (acceptedFalse err))\<rparr>\<rparr>"
  from Some Status_Update_writes[of c f ?n] show ?thesis
    by (auto simp: validateSpec_invalid[OF Some] Let_def writes_phase_refl)
qed

lemma syncStatus_writes:
  "writes_phase c (sCluster (syncStatus f c nab vb)) (nab_key nab) NonAdminBackupPhaseCreated"
proof (cases "bookkeeping_complete (Status nab) vb")
  case False
  have "Phase (bookkept (now f) (Status nab) vb) = NonAdminBackupPhaseCreated"
    using bookkept_complete[of "now f" "Status nab" vb] by (simp add: bookkeeping_complete_def)
  with Status_Update_writes[of c f "nab\<lparr>Status := bookkept (now f) (Status nab) vb\<rparr>"]
  show ?thesis
    by (simp add: syncStatus_pending[OF False])
next
  case True
  let ?st = "fst (updateNonAdminBackupVeleroBackupStatus (Status nab) vb)"
  have "Phase ?st = NonAdminBackupPhaseCreated"
    using updateStatus_keeps_bookkeeping[OF True] by (simp add: bookkeeping_complete_def)
  with Status_Update_writes[of c f "nab\<lparr>Status := ?st\<rparr>"] show ?thesis
    by (simp add: syncStatus_complete[OF True] Let_def writes_phase_refl)
qed

lemma sync_writes:
  "writes_phase c (sCluster (syncVeleroBackupWithNonAdminBackup r fn f c nab)) (nab_key nab)
     NonAdminBackupPhaseCreated"
proof -
  let ?name = "GenerateVeleroBackupName fn (Namespace (ObjectMeta nab)) (Name (ObjectMeta nab))"
  obtain c' g where g: "getOrCreateVeleroBackup r fn f c ?name nab = (c', g)"
    by (cases "getOrCreateVeleroBackup r fn f c ?name nab")
  note n = getOrCreate_nabs[OF g]
  have "writes_phase c (sCluster (syncStatus f c' nab vb)) (nab_key nab) NonAdminBackupPhaseCreated" for vb
    using syncStatus_writes[of c' f nab vb] n by (simp add: writes_phase_def)
  with g n show ?thesis
    by (auto simp: syncVeleroBackupWithNonAdminBackup_def Let_def writes_phase_refl writes_phase_nabs
        split: sum.splits)
qed

lemma validateSpec_valid_pass:
  assumes "ValidateBackupSpec fn nab = None" "sErr (validateSpec r fn f c nab) = None"
    "\<not> sRequeue (validateSpec r fn f c nab)"
  shows "validateSpec r fn f c nab = \<lparr>sCluster = c, sNab = nab, sRequeue = False, sErr = None\<rparr>"
proof -
  let ?set = "SetStatusCondition (now f) (Conditions (Status nab)) acceptedTrue"
  from assms have "\<not> snd ?set"
    by (auto simp: validateSpec_def Let_def case_prod_beta split: option.splits prod.splits)
  then have "fst ?set = Conditions (Status nab)" "\<not> snd ?set"
    by (simp_all add: SetStatusCondition_changed)
  with assms(1) show ?thesis
    by (simp add: validateSpec_def Let_def case_prod_beta)
qed

text \<open>What one pass may write as the phase of the request it reconciles.\<close>

lemma Reconcile_writes:
  assumes "Get_NonAdminBackup f c req = Inr nab"
  shows "\<exists>p. writes_phase c (fst (Reconcile r fn f c req)) (nab_key nab) p
     \<and> (if Phase (Status nab) = EmptyString then p = NonAdminBackupPhaseNew
         else if ValidateBackupSpec fn nab \<noteq> None then p = NonAdminBackupPhaseBackingOff
         else p = Phase (Status nab) \<or> p = NonAdminBackupPhaseCreated)"
proof (cases "Phase (Status nab) = EmptyString")
  case True
  from init_empty_stops[OF True, of r fn f c] assms
  have "fst (Reconcile r fn f c req) = sCluster (init r fn f c nab)"
    by (auto simp: Reconcile_def reconcileSteps_def Let_def split: option.splits)
  with init_writes[OF True, of c r fn f] True show ?thesis by auto
next
  case False
  note i = init_nonempty[OF False, of r fn f c]
  let ?v = "validateSpec r fn f c nab"
  show ?thesis
  proof (cases "sErr ?v = None \<and> \<not> sRequeue ?v")
    case stop: False
    with assms i have "fst (Reconcile r fn f c req) = sCluster ?v"
      by (auto simp: Reconcile_def reconcileSteps_def Let_def split: option.splits)
    with validateSpec_writes[of c r fn f nab] False show ?thesis
      by (cases "ValidateBackupSpec fn nab") auto
  next
    case go: True
    then have valid: "ValidateBackupSpec fn nab = None"
      using validateSpec_invalid_err[of fn nab _ r f c] by (cases "ValidateBackupSpec fn nab") auto
    from validateSpec_valid_pass[OF valid] go
    have v: "?v = \<lparr>sCluster = c, sNab = nab, sRequeue = False, sErr = None\<rparr>" by simp
    have "fst (Reconcile r fn f c req) = sCluster (syncVeleroBackupWithNonAdminBackup r fn f c nab)"
      using assms i v
      by (simp add: Reconcile_def reconcileSteps_def Let_def sync_requeue split: option.splits)
    with sync_writes[of c r fn f nab] False valid show ?thesis by auto
  qed
qed


lemma phase_forward_refl: "phase_forward p p"
  by (simp add: phase_forward_def)

text \<open>The stored request after one pass: untouched, or with a new status.\<close>

lemma Reconcile_stored:
  assumes "nabs c req = Some n"
  shows "nabs (fst (Reconcile r fn f c req)) req = Some n
    \<or> (\<exists>s. nabs (fst (Reconcile r fn f c req)) req = Some (n\<lparr>Status := s\<rparr>)
          \<and> (if Phase (Status n) = EmptyString then Phase s = NonAdminBackupPhaseNew
              else if ValidateBackupSpec fn n \<noteq> None then Phase s = NonAdminBackupPhaseBackingOff
              else Phase s = Phase (Status n) \<or> Phase s = NonAdminBackupPhaseCreated))"
proof (cases "Get_NonAdminBackup f c req")
  case (Inl e)
  then have "fst (Reconcile r fn f c req) = c"
    by (simp add: Reconcile_def)
  with assms show ?thesis by simp
next
  case (Inr m)
  with assms have m: "m = n"
    by (auto simp: Get_NonAdminBackup_def split: option.splits)
  from Reconcile_writes[OF Inr[unfolded m], of r fn] obtain p where
    w: "writes_phase c (fst (Reconcile r fn f c req)) (nab_key n) p"
    and p: "if Phase (Status n) = EmptyString then p = NonAdminBackupPhaseNew
         else if ValidateBackupSpec fn n \<noteq> None then p = NonAdminBackupPhaseBackingOff
         else p = Phase (Status n) \<or> p = NonAdminBackupPhaseCreated"
    by blast
  from w consider "nabs (fst (Reconcile r fn f c req)) = nabs c"
    | stored s where "nabs c (nab_key n) = Some stored" "Phase s = p"
        "nabs (fst (Reconcile r fn f c req)) = (nabs c)(nab_key n \<mapsto> stored\<lparr>Status := s\<rparr>)"
    by (auto simp: writes_phase_def)
  then show ?thesis
  proof cases
    case 1
    with assms show ?thesis by simp
  next
    case (2 stored s)
    show ?thesis
    proof (cases "nab_key n = req")
      case True
      with 2 assms have "nabs (fst (Reconcile r fn f c req)) req = Some (n\<lparr>Status := s\<rparr>)"
        by simp
      with p 2(2) show ?thesis by auto
    next
      case False
      with 2 assms show ?thesis by simp
    qed
  qed
qed

lemma Reconcile_absent:
  assumes "nabs c req = None"
  shows "fst (Reconcile r fn f c req) = c"
  using assms by (auto simp: Reconcile_def Get_NonAdminBackup_def split: option.splits)

lemma pass_never_back: "never_back_step req c (fst (Reconcile r fn f c req))"
proof (cases "nabs c req")
  case None
  then show ?thesis by (simp add: Reconcile_absent never_back_step_def)
next
  case (Some n)
  from Reconcile_stored[OF Some, of r fn f] show ?thesis
    by (auto simp: never_back_step_def stored_phase_def Some phase_defs split: if_splits)
qed

lemma pass_phase_move:
  assumes "known_phase (stored_phase c req)"
  shows "phase_move fn req c (fst (Reconcile r fn f c req))
    \<and> known_phase (stored_phase (fst (Reconcile r fn f c req)) req)"
proof (cases "nabs c req")
  case None
  with assms show ?thesis
    by (simp add: Reconcile_absent phase_move_def forward_step_def phase_forward_refl)
next
  case (Some n)
  from Reconcile_stored[OF Some, of r fn f] assms show ?thesis
    by (auto simp: phase_move_def forward_step_def phase_forward_def known_phase_def
        stored_phase_def Some phase_defs split: if_splits)
qed

lemma pass_forward:
  assumes "status_blind fn" "stored_consistent fn c req"
  shows "forward_step req c (fst (Reconcile r fn f c req))
    \<and> stored_consistent fn (fst (Reconcile r fn f c req)) req"
proof (cases "nabs c req")
  case None
  with assms show ?thesis
    by (simp add: Reconcile_absent forward_step_def phase_forward_refl)
next
  case (Some n)
  have v: "ValidateBackupSpec fn (n\<lparr>Status := s\<rparr>) = ValidateBackupSpec fn n" for s
    using assms(1) by (simp add: status_blind_def)
  from assms(2) Some have pc: "phase_consistent fn n"
    by (simp add: stored_consistent_def)
  from Reconcile_stored[OF Some, of r fn f] pc show ?thesis
    unfolding forward_step_def stored_consistent_def stored_phase_def phase_consistent_def
      phase_forward_def
    by (auto simp: Some v phase_defs split: if_splits)
qed

lemma outside_same_phase:
  "keeps_status req g \<Longrightarrow> stored_phase (g c) req = stored_phase c req"
proof -
  assume "keeps_status req g"
  then have k: "map_option Status (nabs (g c) req) = map_option Status (nabs c req)"
    by (simp add: keeps_status_def)
  show ?thesis
    using k by (cases "nabs c req"; cases "nabs (g c) req") (auto simp: stored_phase_def)
qed

lemma outside_never_back: "keeps_status req g \<Longrightarrow> never_back_step req c (g c)"
  by (simp add: never_back_step_def outside_same_phase)

lemma outside_phase_move: "keeps_status req g \<Longrightarrow> phase_move fn req c (g c)"
  by (simp add: phase_move_def forward_step_def outside_same_phase phase_forward_refl)

lemma outside_forward: "keeps_status req g \<Longrightarrow> forward_step req c (g c)"
  by (simp add: forward_step_def outside_same_phase phase_forward_refl)

lemma outside_consistent:
  assumes "keeps_status req g" "keeps_verdict fn req g" "stored_consistent fn c req"
  shows "stored_consistent fn (g c) req"
proof -
  from assms(1) have s: "map_option Status (nabs (g c) req) = map_option Status (nabs c req)"
    by (simp add: keeps_status_def)
  from assms(2) have v: "map_option (ValidateBackupSpec fn) (nabs (g c) req)
      = map_option (ValidateBackupSpec fn) (nabs c req)"
    by (simp add: keeps_verdict_def)
  show ?thesis
    using s v assms(3)
    by (cases "nabs c req"; cases "nabs (g c) req")
       (auto simp: stored_consistent_def phase_consistent_def)
qed

lemma run_head: "\<exists>cs. run r fn es c req = c # cs"
  by (induction r fn es c req rule: run.induct) auto

text \<open>A relation kept by every pass and every outside change holds along the run.\<close>

lemma run_successively:
  assumes pass: "\<And>c f. I c \<Longrightarrow> R c (fst (Reconcile r fn f c req)) \<and> I (fst (Reconcile r fn f c req))"
    and out: "\<And>c g. I c \<Longrightarrow> P g \<Longrightarrow> R c (g c) \<and> I (g c)"
  shows "I c \<Longrightarrow> all_outside P es \<Longrightarrow> successively R (run r fn es c req)"
proof (induction es arbitrary: c)
  case Nil
  then show ?case by simp
next
  case (Cons e es)
  have hd: "\<exists>cs. run r fn es c' req = c' # cs" for c'
    by (rule run_head)
  show ?case
  proof (cases e)
    case (Pass f)
    let ?c = "fst (Reconcile r fn f c req)"
    from pass[OF Cons.prems(1), of f] have s: "R c ?c" "I ?c" by auto
    from Cons.prems(2) Pass have "all_outside P es" by simp
    from Cons.IH[OF s(2) this] hd[of ?c] s(1) Pass show ?thesis by auto
  next
    case (Outside g)
    from Cons.prems(2) Outside have pg: "P g" "all_outside P es" by auto
    from out[OF Cons.prems(1) pg(1)] have s: "R c (g c)" "I (g c)" by auto
    from Cons.IH[OF s(2) pg(2)] hd[of "g c"] s(1) Outside show ?thesis by auto
  qed
qed

lemma all_outside_conj:
  "all_outside P es \<Longrightarrow> all_outside Q es \<Longrightarrow> all_outside (\<lambda>g. P g \<and> Q g) es"
  by (induction P es rule: all_outside.induct) auto

lemma run_never_back:
  "all_outside (keeps_status req) es \<Longrightarrow> successively (never_back_step req) (run r fn es c req)"
  by (rule run_successively[where I="\<lambda>c. True" and P="keeps_status req"])
     (auto simp: pass_never_back outside_never_back)

lemma run_phase_move:
  assumes "all_outside (keeps_status req) es" "known_phase (stored_phase c req)"
  shows "successively (phase_move fn req) (run r fn es c req)"
  by (rule run_successively[where I="\<lambda>c. known_phase (stored_phase c req)"
        and P="keeps_status req", OF _ _ assms(2,1)])
     (auto simp: pass_phase_move outside_phase_move outside_same_phase)

lemma run_forward:
  assumes "all_outside (keeps_status req) es" "all_outside (keeps_verdict fn req) es"
    "status_blind fn" "stored_consistent fn c req"
  shows "successively (forward_step req) (run r fn es c req)"
  by (rule run_successively[where I="\<lambda>c. stored_consistent fn c req"
        and P="\<lambda>g. keeps_status req g \<and> keeps_verdict fn req g",
        OF _ _ assms(4) all_outside_conj[OF assms(1,2)]])
     (auto simp: pass_forward[OF assms(3)] outside_forward outside_consistent)

text \<open>
  C3, amended. Take any sequence of reconcile passes on a request, with any outside
  changes in between that leave the request's status alone (edits of its spec, changes of
  execution objects). Along it a non-empty phase never becomes empty and the phase never
  returns to New, and the Initialize step leaves a request with a non-empty phase
  untouched. Starting from one of the four phases, the phase only stays or moves forward
  along empty to New, New to Created or New to BackingOff, except in a pass that finds the
  stored phase contradicted by the validator, where it moves from BackingOff to Created or
  from Created to BackingOff. When the validator reads metadata and spec only, no outside
  change alters its verdict on the request and the starting phase agrees with the verdict,
  there is no such pass: the phase only stays or moves forward.
\<close>

theorem phase_moves_forward:
  assumes "all_outside (keeps_status req) es"
  shows "successively (never_back_step req) (run r fn es c req)
    \<and> (known_phase (stored_phase c req) \<longrightarrow>
          successively (phase_move fn req) (run r fn es c req))
    \<and> (status_blind fn \<and> all_outside (keeps_verdict fn req) es \<and> stored_consistent fn c req \<longrightarrow>
          successively (forward_step req) (run r fn es c req))
    \<and> (Phase (Status n) \<noteq> EmptyString \<longrightarrow>
          init r fn f c' n = \<lparr>sCluster = c', sNab = n, sRequeue = False, sErr = None\<rparr>)"
  using run_never_back[OF assms] run_phase_move[OF assms] run_forward[OF assms] init_nonempty
  by blast

theorem phase_moves_forward_witness:
  "all_outside (keeps_status (''ns1'', ''r2'')) history_r2
   \<and> known_phase (stored_phase cluster_r2_created (''ns1'', ''r2''))
   \<and> phases_of (''ns1'', ''r2'')
         (run sample_reconciler sample_function history_r2 cluster_r2_created (''ns1'', ''r2''))
       = ['''', ''New'', ''BackingOff'', ''BackingOff'', ''BackingOff'', ''Created'']
   \<and> successively (never_back_step (''ns1'', ''r2''))
         (run sample_reconciler sample_function history_r2 cluster_r2_created (''ns1'', ''r2''))
   \<and> successively (phase_move sample_function (''ns1'', ''r2''))
         (run sample_reconciler sample_function history_r2 cluster_r2_created (''ns1'', ''r2''))
   \<and> all_outside (keeps_status (''ns1'', ''r1'')) history_r1
   \<and> all_outside (keeps_verdict sample_function (''ns1'', ''r1'')) history_r1
   \<and> status_blind sample_function
   \<and> stored_consistent sample_function cluster_r1 (''ns1'', ''r1'')
   \<and> phases_of (''ns1'', ''r1'')
         (run sample_reconciler sample_function history_r1 cluster_r1 (''ns1'', ''r1''))
       = ['''', ''New'', ''New'', ''Created'', ''Created'', ''Created'', ''Created'']
   \<and> nabs (last (run sample_reconciler sample_function history_r1 cluster_r1 (''ns1'', ''r1'')))
         (''ns1'', ''r1'')
       = Some (request_r1_mirrored (Some status_completed))
   \<and> successively (forward_step (''ns1'', ''r1''))
         (run sample_reconciler sample_function history_r1 cluster_r1 (''ns1'', ''r1''))
   \<and> Phase (Status request_r1_new) \<noteq> EmptyString
   \<and> init sample_reconciler sample_function (no_faults 7) cluster_r1_new request_r1_new
       = \<lparr>sCluster = cluster_r1_new, sNab = request_r1_new, sRequeue = False, sErr = None\<rparr>"
proof -
  let ?run2 = "run sample_reconciler sample_function history_r2 cluster_r2_created (''ns1'', ''r2'')"
  let ?run1 = "run sample_reconciler sample_function history_r1 cluster_r1 (''ns1'', ''r1'')"
  have a2: "all_outside (keeps_status (''ns1'', ''r2'')) history_r2"
    by (auto simp: history_r2_def keeps_status_def tenant_update_def split: option.splits)
  have k2: "known_phase (stored_phase cluster_r2_created (''ns1'', ''r2''))"
    by (simp add: known_phase_def stored_phase_def r2_defs sample_defs phase_defs)
  have p2: "phases_of (''ns1'', ''r2'') ?run2
       = ['''', ''New'', ''BackingOff'', ''BackingOff'', ''BackingOff'', ''Created'']"
    by (simp add: stored_phase_def model_defs sample_defs r2_defs history_defs Let_def)
  have a1: "all_outside (keeps_status (''ns1'', ''r1'')) history_r1"
    by (auto simp: history_r1_def keeps_status_def velero_reports_def split: option.splits)
  have v1: "all_outside (keeps_verdict sample_function (''ns1'', ''r1'')) history_r1"
    by (auto simp: history_r1_def keeps_verdict_def velero_reports_def split: option.splits)
  have b: "status_blind sample_function"
    by (simp add: status_blind_def sample_function_def)
  have s1: "stored_consistent sample_function cluster_r1 (''ns1'', ''r1'')"
    by (simp add: stored_consistent_def phase_consistent_def sample_defs phase_defs)
  have p1: "phases_of (''ns1'', ''r1'') ?run1
       = ['''', ''New'', ''New'', ''Created'', ''Created'', ''Created'', ''Created'']"
    by (simp add: stored_phase_def model_defs sample_defs r1_defs history_defs Let_def)
  have l1: "nabs (last ?run1) (''ns1'', ''r1'') = Some (request_r1_mirrored (Some status_completed))"
    by (simp add: model_defs sample_defs r1_defs history_defs Let_def)
  have h: "Phase (Status request_r1_new) \<noteq> EmptyString"
    by (simp add: request_r1_new_def sample_defs EmptyString_def)
  note t2 = phase_moves_forward[OF a2, of sample_reconciler sample_function cluster_r2_created]
  note t1 = phase_moves_forward[OF a1, of sample_reconciler sample_function cluster_r1
      request_r1_new "no_faults 7" cluster_r1_new]
  from t2 k2 have c2: "successively (never_back_step (''ns1'', ''r2'')) ?run2"
    "successively (phase_move sample_function (''ns1'', ''r2'')) ?run2"
    by blast+
  from t1 v1 b s1 h have c1: "successively (forward_step (''ns1'', ''r1'')) ?run1"
    "init sample_reconciler sample_function (no_faults 7) cluster_r1_new request_r1_new
       = \<lparr>sCluster = cluster_r1_new, sNab = request_r1_new, sRequeue = False, sErr = None\<rparr>"
    by blast+
  from a2 k2 p2 c2 a1 v1 b s1 p1 l1 c1 h show ?thesis by blast
qed

end
